theory Spec2Isabelle
  imports Main "HOL-Library.Multiset" "HOL-Library.Char_ord" "HOL-Library.List_Lexorder"
    "HOL-Library.Product_Lexorder" "HOL-Library.Option_ord"
begin

section \<open>Python strings\<close>

text \<open>
  Texts are modelled as \<open>string\<close> (lists of 8-bit characters) read as ASCII: the case
  maps touch the 26 letters only, \<open>\d\<close> is one of \<open>0..9\<close> and \<open>\s\<close> is one of the
  ASCII characters for which Python's \<open>str.isspace\<close> holds.
\<close>

definition lower_char :: "char \<Rightarrow> char" where
  "lower_char c =
     (case map_of (zip ''ABCDEFGHIJKLMNOPQRSTUVWXYZ'' ''abcdefghijklmnopqrstuvwxyz'') c of
        Some d \<Rightarrow> d
      | None \<Rightarrow> c)"

definition upper_char :: "char \<Rightarrow> char" where
  "upper_char c =
     (case map_of (zip ''abcdefghijklmnopqrstuvwxyz'' ''ABCDEFGHIJKLMNOPQRSTUVWXYZ'') c of
        Some d \<Rightarrow> d
      | None \<Rightarrow> c)"

definition lower :: "string \<Rightarrow> string" where
  "lower s = map lower_char s"

definition upper :: "string \<Rightarrow> string" where
  "upper s = map upper_char s"

definition is_digit :: "char \<Rightarrow> bool" where
  "is_digit c = (c \<in> set ''0123456789'')"

definition is_space :: "char \<Rightarrow> bool" where
  "is_space c =
     (c \<in> set [CHR 0x09, CHR 0x0A, CHR 0x0B, CHR 0x0C, CHR 0x0D,
               CHR 0x1C, CHR 0x1D, CHR 0x1E, CHR 0x1F, CHR 0x20])"

definition strip :: "string \<Rightarrow> string" where
  "strip s = rev (dropWhile is_space (rev (dropWhile is_space s)))"

text \<open>\<open>starts_with sub text\<close> is \<open>text.startswith(sub)\<close>.\<close>

fun starts_with :: "string \<Rightarrow> string \<Rightarrow> bool" where
  "starts_with [] text = True"
| "starts_with (p # ps) [] = False"
| "starts_with (p # ps) (c # cs) = (p = c \<and> starts_with ps cs)"

text \<open>\<open>contains text sub\<close> is Python's \<open>sub in text\<close>.\<close>

fun contains :: "string \<Rightarrow> string \<Rightarrow> bool" where
  "contains [] sub = (sub = [])"
| "contains (c # cs) sub = (starts_with sub (c # cs) \<or> contains cs sub)"

text \<open>\<open>any_in kws text\<close> is \<open>any(kw in text for kw in kws)\<close>.\<close>

definition any_in :: "string list \<Rightarrow> string \<Rightarrow> bool" where
  "any_in kws text = list_ex (\<lambda>kw. contains text kw) kws"

text \<open>
  \<open>count_sub text sub\<close> is \<open>text.count(sub)\<close> for a non-empty \<open>sub\<close>: occurrences
  are counted from the left and do not overlap, so after a hit the scan skips the rest of
  the occurrence.
\<close>

fun count_from :: "nat \<Rightarrow> string \<Rightarrow> string \<Rightarrow> nat" where
  "count_from skip [] sub = 0"
| "count_from skip (c # cs) sub =
     (if 0 < skip then count_from (skip - 1) cs sub
      else if starts_with sub (c # cs) then Suc (count_from (length sub - 1) cs sub)
      else count_from 0 cs sub)"

definition count_sub :: "string \<Rightarrow> string \<Rightarrow> nat" where
  "count_sub text sub = count_from 0 text sub"

definition apostrophe :: char where
  "apostrophe = CHR 0x27"

definition newline :: char where
  "newline = CHR 0x0A"

section \<open>The orchestrator: \<open>app/modules/agents.py\<close>\<close>

subsection \<open>External capabilities\<close>

text \<open>
  A call of a language model either raises (\<open>Inl\<close> the exception's text) or returns its
  output (\<open>Inr\<close>). The outcomes of one turn's external calls are the fields of
  \<open>turn_env\<close>, one per call site of \<open>process_turn\<close>, each a function of the
  arguments the source passes. The scheduling advisor and the info advisor are called as
  black boxes by \<open>process_turn\<close>; \<open>Inl\<close> is an exception they let escape.
\<close>

type_synonym 'a outcome = "string + 'a"

record turn_env =
  main_llm :: "string \<Rightarrow> string outcome"
  exit_llm_confirm :: "string \<Rightarrow> string \<Rightarrow> string outcome"
  exit_llm_disengaged :: "string \<Rightarrow> string \<Rightarrow> string outcome"
  exit_message_llm :: "string \<Rightarrow> bool \<Rightarrow> string outcome"
  screening_llm :: "string \<Rightarrow> string \<Rightarrow> string outcome"
  info_generate_response :: "string \<Rightarrow> string \<Rightarrow> string outcome"
  handle_scheduling :: "string \<Rightarrow> string \<Rightarrow> string \<Rightarrow> (string \<times> bool) outcome"

subsection \<open>\<open>MainAgent.decide_action\<close>\<close>

definition decide_action :: "(string \<Rightarrow> string outcome) \<Rightarrow> string \<Rightarrow> string" where
  "decide_action llm conversation_history =
     (case llm conversation_history of
        Inl e \<Rightarrow> ''ERROR: '' @ e
      | Inr response \<Rightarrow>
          (let action = upper (strip response) in
           if action \<in> set [''CONTINUE'', ''SCHEDULE'', ''END''] then action
           else if contains action ''CONTINUE'' then ''CONTINUE''
           else if contains action ''SCHEDULE'' then ''SCHEDULE''
           else if contains action ''END'' then ''END''
           else ''CONTINUE''))"

subsection \<open>\<open>ExitAdvisor\<close>: \<open>app/modules/exit_agent/exit_agent.py\<close>\<close>

definition evaluate :: "(string \<Rightarrow> string \<Rightarrow> string outcome) \<Rightarrow> string \<Rightarrow> string \<Rightarrow> string" where
  "evaluate llm user_message conversation_history =
     (case llm user_message conversation_history of
        Inl e \<Rightarrow> ''CONTINUE''
      | Inr response \<Rightarrow>
          (let decision = upper (strip response) in
           if contains decision ''END'' then ''END'' else ''CONTINUE''))"

definition should_exit :: "(string \<Rightarrow> string \<Rightarrow> string outcome) \<Rightarrow> string \<Rightarrow> string \<Rightarrow> bool" where
  "should_exit llm user_message conversation_history =
     (evaluate llm user_message conversation_history = ''END'')"

definition get_exit_message :: "(string \<Rightarrow> bool \<Rightarrow> string outcome) \<Rightarrow> string \<Rightarrow> bool \<Rightarrow> string" where
  "get_exit_message llm conversation_history is_booked =
     (case llm conversation_history is_booked of
        Inr response \<Rightarrow> response
      | Inl e \<Rightarrow>
          (if is_booked
           then ''Great! Your interview is confirmed. You'' @ [apostrophe] @
                ''ll receive a calendar invite shortly. Good luck!''
           else ''Thank you for your time. We'' @ [apostrophe] @
                ''ll keep your information on file for future opportunities.''))"

subsection \<open>\<open>InfoAdvisor.needs_info_retrieval\<close>: \<open>app/modules/info_agent/info_agent.py\<close>\<close>

definition question_indicators :: "string list" where
  "question_indicators =
     [''?'', ''what'', ''how'', ''which'', ''when'', ''where'', ''who'', ''why'',
      ''tell me'', ''explain'', ''describe'', ''requirements'', ''salary'',
      ''benefits'', ''stack'', ''technology'', ''company'', ''team'',
      ''responsibilities'', ''experience needed'']"

definition needs_info_retrieval :: "string \<Rightarrow> bool" where
  "needs_info_retrieval user_message = any_in question_indicators (lower user_message)"

subsection \<open>\<open>RecruitmentBot\<close>\<close>

record bot_state =
  is_interview_booked :: bool
  conversation_start :: string
  screening_details_collected :: int
  screening_complete :: bool

text \<open>The state \<open>__init__\<close> sets up; \<open>now\<close> is the clock's ISO timestamp.\<close>

definition init_state :: "string \<Rightarrow> bot_state" where
  "init_state now =
     \<lparr>is_interview_booked = False, conversation_start = now,
      screening_details_collected = 0, screening_complete = False\<rparr>"

definition reset :: "bot_state \<Rightarrow> string \<Rightarrow> bot_state" where
  "reset s now =
     s\<lparr>is_interview_booked := False, conversation_start := now,
       screening_details_collected := 0, screening_complete := False\<rparr>"

definition exp_keywords :: "string list" where
  "exp_keywords = [''year'', ''experience'', ''worked for'', ''been working'']"

definition tech_keywords :: "string list" where
  "tech_keywords =
     [''python'', ''django'', ''flask'', ''aws'', ''docker'', ''sql'',
      ''fastapi'', ''react'', ''kubernetes'', ''cloud'']"

definition update_screening_progress :: "bot_state \<Rightarrow> string \<Rightarrow> bot_state" where
  "update_screening_progress s user_input =
     (let user_lower = lower user_input;
          s1 = (if any_in exp_keywords user_lower \<and> list_ex is_digit user_input
                then s\<lparr>screening_details_collected := screening_details_collected s + 1\<rparr>
                else s);
          s2 = (if any_in tech_keywords user_lower
                then s1\<lparr>screening_details_collected := screening_details_collected s1 + 1\<rparr>
                else s1)
      in if 2 \<le> screening_details_collected s2
         then s2\<lparr>screening_complete := True\<rparr>
         else s2)"

definition disengaged_phrases :: "string list" where
  "disengaged_phrases =
     [''nope'', ''no'', ''nah'', ''not interested'', ''stop'',
      ''leave me alone'', ''go away'', ''don'' @ [apostrophe] @ ''t want'']"

definition refusals :: "string list" where
  "refusals =
     [''don'' @ [apostrophe] @ ''t want to tell'', ''won'' @ [apostrophe] @ ''t tell'',
      ''not interested'', ''leave me alone'']"

definition is_disengaged :: "string \<Rightarrow> string \<Rightarrow> bool" where
  "is_disengaged user_input history =
     (let user_lower = strip (lower user_input) in
      if any_in disengaged_phrases user_lower \<and>
         2 \<le> count_sub (lower history) ''candidate: no'' +
              count_sub (lower history) ''candidate: nope''
      then True
      else any_in refusals user_lower)"

definition generate_screening_response ::
    "(string \<Rightarrow> string \<Rightarrow> string outcome) \<Rightarrow> string \<Rightarrow> string \<Rightarrow> string" where
  "generate_screening_response llm user_input history =
     (case llm history user_input of
        Inr response \<Rightarrow> response
      | Inl e \<Rightarrow> ''Error generating response: '' @ e)"

text \<open>
  The advisor methods \<open>process_turn\<close> calls, in the order it calls them: the trace of a
  turn.
\<close>

datatype call =
    Call_should_exit
  | Call_info_generate_response
  | Call_generate_screening_response
  | Call_handle_scheduling
  | Call_get_exit_message

text \<open>
  What one call of \<open>process_turn\<close> leaves behind: what it returns (\<open>Inr (response,
  action)\<close>) or the exception that escapes it (\<open>Inl\<close>), the bot's state afterwards and
  the advisor calls made.
\<close>

record turn_result =
  returned :: "(string \<times> string) outcome"
  state_after :: bot_state
  calls :: "call list"

definition apology :: string where
  "apology = ''I'' @ [apostrophe] @ ''m sorry, I encountered an error. Please try again.''"

text \<open>The validation layer of \<open>process_turn\<close>: the three override rules, in order.\<close>

definition validate_end :: "turn_env \<Rightarrow> bot_state \<Rightarrow> string \<Rightarrow> string \<Rightarrow> string \<Rightarrow> string \<times> call list" where
  "validate_end env s user_input current_history action =
     (if action = ''END''
      then (if \<not> should_exit (exit_llm_confirm env) user_input current_history
                 \<and> \<not> is_interview_booked s
            then ''CONTINUE'' else action, [Call_should_exit])
      else (action, []))"

definition check_disengagement :: "turn_env \<Rightarrow> string \<Rightarrow> string \<Rightarrow> string \<Rightarrow> string \<times> call list" where
  "check_disengagement env user_input current_history action =
     (if action = ''CONTINUE'' \<and> is_disengaged user_input current_history
      then (if should_exit (exit_llm_disengaged env) user_input current_history
            then ''END'' else action, [Call_should_exit])
      else (action, []))"

definition block_schedule :: "bot_state \<Rightarrow> string \<Rightarrow> string" where
  "block_schedule s action =
     (if action = ''SCHEDULE'' \<and> \<not> screening_complete s then ''CONTINUE'' else action)"

text \<open>The action \<open>process_turn\<close> dispatches on, with the calls made to reach it.\<close>

definition validated_action :: "turn_env \<Rightarrow> bot_state \<Rightarrow> string \<Rightarrow> string \<Rightarrow> string \<times> call list" where
  "validated_action env s user_input current_history =
     (let (a1, c1) = validate_end env s user_input current_history
                       (decide_action (main_llm env) current_history);
          (a2, c2) = check_disengagement env user_input current_history a1
      in (block_schedule s a2, c1 @ c2))"

text \<open>
  Response generation. \<open>conversation_timestamp or self.conversation_start\<close> takes
  the bot's own start time for \<open>None\<close> and for the empty string.
\<close>

definition dispatch ::
    "turn_env \<Rightarrow> bot_state \<Rightarrow> string \<Rightarrow> string \<Rightarrow> string option \<Rightarrow> string \<Rightarrow> turn_result" where
  "dispatch env s user_input current_history conversation_timestamp action =
     (if action = ''CONTINUE'' then
        (if needs_info_retrieval user_input then
           (case info_generate_response env user_input current_history of
              Inl e \<Rightarrow> \<lparr>returned = Inl e, state_after = s,
                        calls = [Call_info_generate_response]\<rparr>
            | Inr response \<Rightarrow> \<lparr>returned = Inr (response, action), state_after = s,
                               calls = [Call_info_generate_response]\<rparr>)
         else \<lparr>returned = Inr (generate_screening_response (screening_llm env)
                                   user_input current_history, action),
                state_after = s, calls = [Call_generate_screening_response]\<rparr>)
      else if action = ''SCHEDULE'' then
        (case handle_scheduling env user_input current_history
                (case conversation_timestamp of
                   None \<Rightarrow> conversation_start s
                 | Some ts \<Rightarrow> if ts = [] then conversation_start s else ts) of
           Inl e \<Rightarrow> \<lparr>returned = Inl e, state_after = s, calls = [Call_handle_scheduling]\<rparr>
         | Inr (response, booked) \<Rightarrow>
             \<lparr>returned = Inr (response, if booked then ''END'' else action),
              state_after = s\<lparr>is_interview_booked := booked\<rparr>,
              calls = [Call_handle_scheduling]\<rparr>)
      else if action = ''END'' then
        \<lparr>returned = Inr (get_exit_message (exit_message_llm env) current_history
                           (is_interview_booked s), action),
         state_after = s, calls = [Call_get_exit_message]\<rparr>
      else \<lparr>returned = Inr (apology, action), state_after = s, calls = []\<rparr>)"

text \<open>\<open>history + f"\\nCandidate: {user_input}"\<close>, the history the turn works on.\<close>

definition current_history :: "string \<Rightarrow> string \<Rightarrow> string" where
  "current_history history user_input = history @ [newline] @ ''Candidate: '' @ user_input"

definition process_turn ::
    "turn_env \<Rightarrow> bot_state \<Rightarrow> string \<Rightarrow> string \<Rightarrow> string option \<Rightarrow> turn_result" where
  "process_turn env s user_input history conversation_timestamp =
     (let h = current_history history user_input;
          s1 = update_screening_progress s user_input;
          (action, cs) = validated_action env s1 user_input h;
          r = dispatch env s1 user_input h conversation_timestamp action
      in r\<lparr>calls := cs @ calls r\<rparr>)"

text \<open>The action a turn returns, if it returns.\<close>

definition action_of :: "turn_result \<Rightarrow> string option" where
  "action_of r = (case returned r of Inl e \<Rightarrow> None | Inr (response, action) \<Rightarrow> Some action)"

definition response_of :: "turn_result \<Rightarrow> string option" where
  "response_of r = (case returned r of Inl e \<Rightarrow> None | Inr (response, action) \<Rightarrow> Some response)"

subsection \<open>Conversations\<close>

text \<open>
  The states a bot can be in: the one \<open>__init__\<close> builds, and whatever
  \<open>process_turn\<close> (with any participant text, any history and any behaviour of the
  external capabilities) and \<open>reset\<close> make of a state already reached.
\<close>

inductive reachable :: "bot_state \<Rightarrow> bool" where
  reachable_init: "reachable (init_state now)"
| reachable_turn:
    "reachable s \<Longrightarrow> reachable (state_after (process_turn env s user_input history ts))"
| reachable_reset: "reachable s \<Longrightarrow> reachable (reset s now)"

text \<open>
  A scripted turn: the primary classifier's outcome, the exit advisor's outcome at the
  END confirmation and at the disengagement check, and the scheduling advisor's outcome;
  the text generators answer with fixed lines.
\<close>

definition scripted_env ::
    "string outcome \<Rightarrow> string outcome \<Rightarrow> string outcome \<Rightarrow> (string \<times> bool) outcome \<Rightarrow> turn_env" where
  "scripted_env main exit1 exit2 sched =
     \<lparr>main_llm = (\<lambda>h. main),
      exit_llm_confirm = (\<lambda>m h. exit1),
      exit_llm_disengaged = (\<lambda>m h. exit2),
      exit_message_llm = (\<lambda>h b. Inr ''Thank you for your time.''),
      screening_llm = (\<lambda>h m. Inr ''Which frameworks have you used?''),
      info_generate_response = (\<lambda>m h. Inr ''We use Python and AWS.''),
      handle_scheduling = (\<lambda>m h t. sched)\<rparr>"

definition greeting :: string where
  "greeting = ''Recruiter: Hi! Can you tell me about your experience with Python?''"

definition start_time :: string where
  "start_time = ''2024-06-10T09:00:00''"

definition booked_reply :: "(string \<times> bool) outcome" where
  "booked_reply = Inr (''Excellent! I have confirmed your interview.'', True)"

section \<open>The scheduling advisor: \<open>app/modules/advisors/scheduling_advisor.py\<close>\<close>

subsection \<open>\<open>_classify_intent\<close>\<close>

text \<open>
  The label of the language model, stripped, upper-cased and with \<open>_\<close> for every
  blank; \<open>OTHER\<close> when the call raises.
\<close>

definition classify_intent :: "(string \<Rightarrow> string \<Rightarrow> string outcome) \<Rightarrow> string \<Rightarrow> string \<Rightarrow> string" where
  "classify_intent llm user_message history =
     (case llm history user_message of
        Inl e \<Rightarrow> ''OTHER''
      | Inr result \<Rightarrow> map (\<lambda>c. if c = CHR '' '' then CHR ''_'' else c) (upper (strip result)))"

subsection \<open>Dates\<close>

text \<open>
  A date of Python's \<open>datetime\<close>: year, month and day. The time of day of the reference
  plays no part in \<open>_parse_datetime\<close>, whose date is printed with \<open>%Y-%m-%d\<close>. The
  ordinal and the weekday (Monday is 0) are those of \<open>date.toordinal\<close> and
  \<open>date.weekday\<close>.
\<close>

record date =
  year :: nat
  month :: nat
  day :: nat

datatype py_error = OverflowError

definition is_leap :: "nat \<Rightarrow> bool" where
  "is_leap y = (y mod 4 = 0 \<and> (y mod 100 \<noteq> 0 \<or> y mod 400 = 0))"

definition days_in_month :: "nat \<Rightarrow> nat \<Rightarrow> nat" where
  "days_in_month y m =
     (if m = 2 then (if is_leap y then 29 else 28)
      else if m \<in> set [4, 6, 9, 11] then 30
      else 31)"

definition days_before_year :: "nat \<Rightarrow> nat" where
  "days_before_year y = (let p = y - 1 in p * 365 + p div 4 - p div 100 + p div 400)"

definition days_before_month :: "nat \<Rightarrow> nat \<Rightarrow> nat" where
  "days_before_month y m = sum_list (map (days_in_month y) [1..<m])"

definition toordinal :: "date \<Rightarrow> nat" where
  "toordinal d = days_before_year (year d) + days_before_month (year d) (month d) + day d"

definition weekday :: "date \<Rightarrow> nat" where
  "weekday d = (toordinal d + 6) mod 7"

definition next_day :: "date \<Rightarrow> date" where
  "next_day d =
     (if day d < days_in_month (year d) (month d) then d\<lparr>day := day d + 1\<rparr>
      else if month d < 12 then d\<lparr>month := month d + 1, day := 1\<rparr>
      else \<lparr>year = year d + 1, month = 1, day = 1\<rparr>)"

definition max_date :: date where
  "max_date = \<lparr>year = 9999, month = 12, day = 31\<rparr>"

text \<open>
  \<open>d + timedelta(days=n)\<close>: \<open>n\<close> days on, and \<open>OverflowError\<close> when that leaves
  the years \<open>datetime\<close> can hold.
\<close>

fun add_days :: "nat \<Rightarrow> date \<Rightarrow> py_error + date" where
  "add_days 0 d = Inr d"
| "add_days (Suc n) d = (if d = max_date then Inl OverflowError else add_days n (next_day d))"

subsection \<open>Numbers as text\<close>

definition digit_char :: "nat \<Rightarrow> char" where
  "digit_char n = ''0123456789'' ! (n mod 10)"

fun dec :: "nat \<Rightarrow> string" where
  "dec n = (if n < 10 then [digit_char n] else dec (n div 10) @ [digit_char n])"

declare dec.simps [simp del]

definition zfill :: "nat \<Rightarrow> string \<Rightarrow> string" where
  "zfill width s = replicate (width - length s) (CHR ''0'') @ s"

definition digit_val :: "char \<Rightarrow> nat" where
  "digit_val c = (case map_of (zip ''0123456789'' [0, 1, 2, 3, 4, 5, 6, 7, 8, 9]) c of
                    Some v \<Rightarrow> v | None \<Rightarrow> 0)"

text \<open>\<open>int(s)\<close> for a string of decimal digits.\<close>

definition int_of_digits :: "string \<Rightarrow> nat" where
  "int_of_digits s = foldl (\<lambda>a c. 10 * a + digit_val c) 0 s"

text \<open>
  \<open>strftime('%Y-%m-%d')\<close>. The year is printed on four digits; for a year below 1000
  the C library decides whether it pads.
\<close>

definition strftime_ymd :: "date \<Rightarrow> string" where
  "strftime_ymd d =
     zfill 4 (dec (year d)) @ ''-'' @ zfill 2 (dec (month d)) @ ''-'' @ zfill 2 (dec (day d))"

subsection \<open>\<open>_parse_datetime\<close>: the date\<close>

text \<open>The day names with Python's weekday numbers, in the order of the source's dict.\<close>

definition day_names :: "(string \<times> nat) list" where
  "day_names =
     [(''sunday'', 6), (''monday'', 0), (''tuesday'', 1), (''wednesday'', 2),
      (''thursday'', 3), (''friday'', 4), (''saturday'', 5)]"

text \<open>
  The loop over \<open>day_names.items()\<close> stops at the first name the text contains.
\<close>

definition first_day_name :: "string \<Rightarrow> (string \<times> nat) option" where
  "first_day_name text = find (\<lambda>(day_name, wd). contains text day_name) day_names"

text \<open>
  \<open>days_ahead = weekday - ref.weekday()\<close>, with 7 added when that is not positive.
\<close>

definition days_ahead :: "nat \<Rightarrow> date \<Rightarrow> int" where
  "days_ahead wd ref =
     (let d = int wd - int (weekday ref) in if d \<le> 0 then d + 7 else d)"

definition some_date :: "py_error + date \<Rightarrow> py_error + date option" where
  "some_date r = (case r of Inl e \<Rightarrow> Inl e | Inr d \<Rightarrow> Inr (Some d))"

text \<open>The date \<open>_parse_datetime\<close> settles on, from the lower-cased text.\<close>

definition resolve_date :: "string \<Rightarrow> date \<Rightarrow> py_error + date option" where
  "resolve_date text ref =
     (if contains text ''tomorrow'' then some_date (add_days 1 ref)
      else if contains text ''next'' then
        (case first_day_name text of
           None \<Rightarrow> Inr None
         | Some (day_name, wd) \<Rightarrow> some_date (add_days (nat (days_ahead wd ref + 7)) ref))
      else
        (case first_day_name text of
           None \<Rightarrow> Inr None
         | Some (day_name, wd) \<Rightarrow> some_date (add_days (nat (days_ahead wd ref)) ref)))"

subsection \<open>\<open>_parse_datetime\<close>: the time\<close>

text \<open>
  \<open>re.search\<close> with the pattern \<open>(\d{1,2})(?::(\d{2}))?\s*(am|pm|AM|PM)?\<close>. Every part
  after the first group may match nothing, so the search succeeds at the first digit of the
  text and each greedy part keeps what it took first. The result is the three groups.
\<close>

definition match_hour :: "string \<Rightarrow> string \<times> string" where
  "match_hour text =
     (case text of
        c1 # c2 # rest \<Rightarrow> if is_digit c2 then ([c1, c2], rest) else ([c1], c2 # rest)
      | _ \<Rightarrow> (take 1 text, drop 1 text))"

definition match_minute :: "string \<Rightarrow> string option \<times> string" where
  "match_minute text =
     (case text of
        c # m1 # m2 # rest \<Rightarrow>
          if c = CHR '':'' \<and> is_digit m1 \<and> is_digit m2 then (Some [m1, m2], rest)
          else (None, text)
      | _ \<Rightarrow> (None, text))"

definition match_period :: "string \<Rightarrow> string option" where
  "match_period text =
     (if starts_with ''am'' text then Some ''am''
      else if starts_with ''pm'' text then Some ''pm''
      else if starts_with ''AM'' text then Some ''AM''
      else if starts_with ''PM'' text then Some ''PM''
      else None)"

definition time_match_at :: "string \<Rightarrow> string \<times> string option \<times> string option" where
  "time_match_at text =
     (let (g1, rest1) = match_hour text;
          (g2, rest2) = match_minute rest1
      in (g1, g2, match_period (dropWhile is_space rest2)))"

fun time_search :: "string \<Rightarrow> (string \<times> string option \<times> string option) option" where
  "time_search [] = None"
| "time_search (c # cs) =
     (if is_digit c then Some (time_match_at (c # cs)) else time_search cs)"

text \<open>The hour after the am/pm adjustment of the source.\<close>

definition adjust_hour :: "nat \<Rightarrow> string option \<Rightarrow> nat" where
  "adjust_hour hour period =
     (if period \<noteq> None \<and> lower (the period) = ''pm'' \<and> hour < 12 then hour + 12
      else if period \<noteq> None \<and> lower (the period) = ''am'' \<and> hour = 12 then 0
      else hour)"

definition resolve_time :: "string \<Rightarrow> string option" where
  "resolve_time text =
     (case time_search text of
        None \<Rightarrow> None
      | Some (g1, g2, g3) \<Rightarrow>
          (let hour = adjust_hour (int_of_digits g1) g3;
               minute = (case g2 of None \<Rightarrow> ''00'' | Some m \<Rightarrow> m)
           in Some (zfill 2 (dec hour) @ '':'' @ minute)))"

subsection \<open>\<open>_parse_datetime\<close>\<close>

text \<open>
  \<open>ref\<close> is the reference the source settles on first: the parsed \<open>reference_date\<close>,
  or the clock when there is none or it does not parse. An \<open>OverflowError\<close> of the date
  arithmetic escapes the function.
\<close>

definition parse_datetime :: "string \<Rightarrow> date \<Rightarrow> py_error + (string option \<times> string option)" where
  "parse_datetime text0 ref =
     (let text = lower text0 in
      case resolve_date text ref of
        Inl e \<Rightarrow> Inl e
      | Inr target_date \<Rightarrow> Inr (map_option strftime_ymd target_date, resolve_time text))"


definition monday_2024_06_10 :: date where
  "monday_2024_06_10 = \<lparr>year = 2024, month = 6, day = 10\<rparr>"

text \<open>\<open>n\<close> days after \<open>d\<close>, with no bound on the year.\<close>

definition plus_days :: "nat \<Rightarrow> date \<Rightarrow> date" where
  "plus_days n d = (next_day ^^ n) d"

definition date_lt :: "date \<Rightarrow> date \<Rightarrow> bool" where
  "date_lt a b =
     (year a < year b \<or> year a = year b \<and> (month a < month b \<or> month a = month b \<and> day a < day b))"

text \<open>
  The number of days ahead as the specification words it: the difference of the weekdays
  modulo 7, and 7 in place of 0.
\<close>

definition spec_days_ahead :: "nat \<Rightarrow> nat \<Rightarrow> nat" where
  "spec_days_ahead target_weekday reference_weekday =
     (let d = (int target_weekday - int reference_weekday) mod 7
      in nat (if d = 0 then 7 else d))"






section \<open>The slot stores\<close>

text \<open>
  A slot: the row of the \<open>Schedule\<close> table, or the document of the \<open>Availability\<close>
  collection. \<open>slot_id\<close> is the table's \<open>ScheduleID\<close>; the availability column holds 0
  or 1 and is read as a truth value. A store is the list of its slots in the order a scan
  meets them.
\<close>

record slot =
  slot_id :: nat
  slot_date :: string
  slot_time :: string
  slot_position :: string
  available :: bool

definition slot_key :: "slot \<Rightarrow> string \<times> string \<times> string" where
  "slot_key r = (slot_date r, slot_time r, slot_position r)"

text \<open>What \<open>book_slot\<close> returns: the \<open>success\<close> flag and the message.\<close>

record booking_result =
  success :: bool
  message :: string

definition not_available_message :: "string \<Rightarrow> string \<Rightarrow> string" where
  "not_available_message d t = ''Slot '' @ d @ '' at '' @ t @ '' is not available''"

definition booked_message :: "string \<Rightarrow> string \<Rightarrow> string" where
  "booked_message d t = ''Successfully booked interview for '' @ d @ '' at '' @ t"

subsection \<open>\<open>DatabaseManager\<close>: \<open>app/modules/database.py\<close>\<close>

text \<open>
  \<open>fetchone\<close> gives the first row the \<open>SELECT\<close> meets; the \<open>UPDATE\<close> writes every
  row its \<open>WHERE\<close> matches.
\<close>

definition check_slot_availability :: "slot list \<Rightarrow> string \<Rightarrow> string \<Rightarrow> string \<Rightarrow> bool" where
  "check_slot_availability tbl d t p =
     (case find (\<lambda>r. slot_key r = (d, t, p)) tbl of
        None \<Rightarrow> False
      | Some r \<Rightarrow> available r)"

definition book_slot :: "slot list \<Rightarrow> string \<Rightarrow> string \<Rightarrow> string \<Rightarrow> booking_result \<times> slot list" where
  "book_slot tbl d t p =
     (if \<not> check_slot_availability tbl d t p
      then (\<lparr>success = False, message = not_available_message d t\<rparr>, tbl)
      else (\<lparr>success = True, message = booked_message d t\<rparr>,
            map (\<lambda>r. if slot_key r = (d, t, p) then r\<lparr>available := False\<rparr> else r) tbl))"

text \<open>
  \<open>ABS(julianday(date) - julianday(?))\<close>: \<open>days_of\<close> is the day number the date
  function gives a text (a whole number for a plain date, a fraction when the text has a
  time of day), \<open>None\<close> for SQL's \<open>NULL\<close> when the text is no date. \<open>NULL\<close> sorts
  before every number, as \<open>None\<close> does in the order on \<open>option\<close>.
\<close>

definition date_diff ::
    "(string \<Rightarrow> 'a::linordered_idom option) \<Rightarrow> string \<Rightarrow> string \<Rightarrow> 'a option" where
  "date_diff days_of target d =
     (case (days_of d, days_of target) of
        (Some a, Some b) \<Rightarrow> Some \<bar>a - b\<bar>
      | _ \<Rightarrow> None)"

text \<open>\<open>LIMIT ?\<close>: a negative limit is no limit.\<close>

definition sql_limit :: "int \<Rightarrow> 'a list \<Rightarrow> 'a list" where
  "sql_limit n xs = (if n < 0 then xs else take (nat n) xs)"

text \<open>
  \<open>ORDER BY date_diff, time\<close> compares the times as texts, byte by byte. Rows equal in
  both keep their scan order here.
\<close>

definition get_slots_near_date ::
    "(string \<Rightarrow> 'a::linordered_idom option) \<Rightarrow> slot list \<Rightarrow> string \<Rightarrow> string \<Rightarrow> int
       \<Rightarrow> slot list" where
  "get_slots_near_date days_of tbl target_date p limit =
     sql_limit limit
       (sort_key (\<lambda>r. (date_diff days_of target_date (slot_date r), slot_time r))
          (filter (\<lambda>r. available r \<and> slot_position r = p) tbl))"

subsection \<open>\<open>MongoDBManager\<close>: \<open>app/modules/schedule/db_manager.py\<close>\<close>

text \<open>
  The manager holds the collection, when the connection was made, and the mock data it
  falls back to. A call of the driver may raise: \<open>find_raises\<close> and \<open>update_raises\<close>
  say whether the read and the write of the call at hand do.
\<close>

record mongo_db =
  collection :: "slot list option"
  mock_data :: "slot list"

record driver =
  find_raises :: bool
  update_raises :: bool

datatype db_error = ValueError

definition mongo_check_slot_availability ::
    "driver \<Rightarrow> mongo_db \<Rightarrow> string \<Rightarrow> string \<Rightarrow> string \<Rightarrow> bool" where
  "mongo_check_slot_availability drv db d t p =
     (let fallback = (case find (\<lambda>r. slot_key r = (d, t, p)) (mock_data db) of
                        None \<Rightarrow> False
                      | Some r \<Rightarrow> available r)
      in case collection db of
           None \<Rightarrow> fallback
         | Some docs \<Rightarrow>
             if find_raises drv then fallback
             else (case find (\<lambda>r. slot_key r = (d, t, p)) docs of
                     None \<Rightarrow> False
                   | Some r \<Rightarrow> available r))"

text \<open>The first slot of the key is written: \<open>update_one\<close>, and the loop that returns.\<close>

fun book_first :: "string \<times> string \<times> string \<Rightarrow> slot list \<Rightarrow> slot list" where
  "book_first k [] = []"
| "book_first k (r # rs) =
     (if slot_key r = k then r\<lparr>available := False\<rparr> # rs else r # book_first k rs)"

definition mongo_book_slot ::
    "driver \<Rightarrow> mongo_db \<Rightarrow> string \<Rightarrow> string \<Rightarrow> string \<Rightarrow> booking_result \<times> mongo_db" where
  "mongo_book_slot drv db d t p =
     (let fallback =
            (if list_ex (\<lambda>r. slot_key r = (d, t, p)) (mock_data db)
             then (\<lparr>success = True, message = booked_message d t\<rparr>,
                   db\<lparr>mock_data := book_first (d, t, p) (mock_data db)\<rparr>)
             else (\<lparr>success = False, message = ''Slot not found''\<rparr>, db))
      in if \<not> mongo_check_slot_availability drv db d t p
         then (\<lparr>success = False, message = not_available_message d t\<rparr>, db)
         else (case collection db of
                 None \<Rightarrow> fallback
               | Some docs \<Rightarrow>
                   if update_raises drv then fallback
                   else (\<lparr>success = True, message = booked_message d t\<rparr>,
                         db\<lparr>collection := Some (book_first (d, t, p) docs)\<rparr>)))"

text \<open>
  \<open>abs((strptime(x["date"]) - strptime(target_date)).days)\<close>, the key of the sort:
  \<open>days_of\<close> is the day number of a text, \<open>None\<close> where \<open>strptime\<close> raises
  \<open>ValueError\<close>. The key of every element is computed, so one bad date fails the sort,
  and a bad target fails it unless the list is empty.
\<close>

definition sort_by_proximity ::
    "(string \<Rightarrow> 'a::linordered_idom option) \<Rightarrow> string \<Rightarrow> slot list \<Rightarrow> db_error + slot list" where
  "sort_by_proximity days_of target_date slots =
     (if list_ex (\<lambda>r. date_diff days_of target_date (slot_date r) = None) slots
      then Inl ValueError
      else Inr (sort_key (\<lambda>r. the (date_diff days_of target_date (slot_date r))) slots))"

text \<open>\<open>slots[:limit]\<close>: a negative limit counts from the end.\<close>

definition py_take :: "int \<Rightarrow> 'a list \<Rightarrow> 'a list" where
  "py_take n xs = (if n < 0 then take (length xs - nat (- n)) xs else take (nat n) xs)"

text \<open>\<open>cursor.limit(n)\<close>: 0 is no limit, and a negative limit counts as its absolute value.\<close>

definition cursor_limit :: "int \<Rightarrow> 'a list \<Rightarrow> 'a list" where
  "cursor_limit n xs = (if n = 0 then xs else take (nat \<bar>n\<bar>) xs)"

definition mongo_get_slots_near_date ::
    "(string \<Rightarrow> 'a::linordered_idom option) \<Rightarrow> driver \<Rightarrow> mongo_db \<Rightarrow> string \<Rightarrow> string
       \<Rightarrow> int \<Rightarrow> db_error + slot list" where
  "mongo_get_slots_near_date days_of drv db target_date p limit =
     (let fallback =
            (case sort_by_proximity days_of target_date
                    (filter (\<lambda>r. available r \<and> slot_position r = p) (mock_data db)) of
               Inl e \<Rightarrow> Inl e
             | Inr slots \<Rightarrow> Inr (py_take limit slots))
      in case collection db of
           None \<Rightarrow> fallback
         | Some docs \<Rightarrow>
             if find_raises drv then fallback
             else (case sort_by_proximity days_of target_date
                          (cursor_limit (limit * 3)
                             (sort_key slot_date
                                (filter (\<lambda>r. available r \<and> slot_position r = p) docs))) of
                     Inl e \<Rightarrow> fallback
                   | Inr slots \<Rightarrow> Inr (py_take limit slots)))"

text \<open>
  The day number of a text \<open>YYYY-MM-DD\<close>: what the date functions of both stores make
  of the dates the stores are filled with. It stands for them in the examples.
\<close>

definition days_of_ymd :: "string \<Rightarrow> int option" where
  "days_of_ymd s =
     (case s of
        [y1, y2, y3, y4, s1, m1, m2, s2, d1, d2] \<Rightarrow>
          if list_all is_digit [y1, y2, y3, y4, m1, m2, d1, d2] \<and> s1 = CHR ''-'' \<and> s2 = CHR ''-''
             \<and> 1 \<le> int_of_digits [y1, y2, y3, y4]
             \<and> 1 \<le> int_of_digits [m1, m2] \<and> int_of_digits [m1, m2] \<le> 12
             \<and> 1 \<le> int_of_digits [d1, d2]
             \<and> int_of_digits [d1, d2]
                  \<le> days_in_month (int_of_digits [y1, y2, y3, y4]) (int_of_digits [m1, m2])
          then Some (int (toordinal \<lparr>year = int_of_digits [y1, y2, y3, y4],
                                    month = int_of_digits [m1, m2],
                                    day = int_of_digits [d1, d2]\<rparr>))
          else None
      | _ \<Rightarrow> None)"

text \<open>Slots of one position, for the examples.\<close>

definition python_dev :: "nat \<Rightarrow> string \<Rightarrow> string \<Rightarrow> bool \<Rightarrow> slot" where
  "python_dev i d t a =
     \<lparr>slot_id = i, slot_date = d, slot_time = t, slot_position = ''Python Dev'', available = a\<rparr>"

definition quiet_driver :: driver where
  "quiet_driver = \<lparr>find_raises = False, update_raises = False\<rparr>"

text \<open>
  The ranking of the specification: by the distance in days from the target date, and by
  the time of day among slots at the same distance.
\<close>

definition ranked_before ::
    "(string \<Rightarrow> 'a::linordered_idom option) \<Rightarrow> string \<Rightarrow> slot \<Rightarrow> slot \<Rightarrow> bool" where
  "ranked_before days_of target_date a b =
     (date_diff days_of target_date (slot_date a) < date_diff days_of target_date (slot_date b)
      \<or> date_diff days_of target_date (slot_date a) = date_diff days_of target_date (slot_date b)
        \<and> slot_time a \<le> slot_time b)"

text \<open>The store the manager works on: the collection when it is connected, else the mock data.\<close>

definition active_store :: "mongo_db \<Rightarrow> slot list" where
  "active_store db = (case collection db of None \<Rightarrow> mock_data db | Some docs \<Rightarrow> docs)"

definition with_active_store :: "mongo_db \<Rightarrow> slot list \<Rightarrow> mongo_db" where
  "with_active_store db slots =
     (case collection db of
        None \<Rightarrow> db\<lparr>mock_data := slots\<rparr>
      | Some docs \<Rightarrow> db\<lparr>collection := Some slots\<rparr>)"

definition two_slots :: "slot list" where
  "two_slots =
     [python_dev 1 ''2024-06-11'' ''09:00'' True, python_dev 2 ''2024-06-11'' ''10:00'' False]"


text \<open>
  Mock data as \<open>_load_mock_data\<close> generates it, one day at a time and the hours in
  order: two slots the day before 2024-06-12 and one the day after.
\<close>

definition three_slots :: "slot list" where
  "three_slots =
     [python_dev 1 ''2024-06-11'' ''09:00'' True,
      python_dev 2 ''2024-06-11'' ''10:00'' True,
      python_dev 3 ''2024-06-13'' ''09:00'' True]"

text \<open>
  A collection of four slots: three on the two days before 2024-06-14 and one on that day.
\<close>

definition four_slots :: "slot list" where
  "four_slots =
     [python_dev 1 ''2024-06-11'' ''09:00'' True,
      python_dev 2 ''2024-06-11'' ''10:00'' True,
      python_dev 3 ''2024-06-12'' ''09:00'' True,
      python_dev 4 ''2024-06-14'' ''09:00'' True]"

text \<open>
  A table with two rows of one date, time and position, the first taken and the second
  available; and a driver whose write raises.
\<close>

definition duplicate_slots :: "slot list" where
  "duplicate_slots =
     [python_dev 1 ''2024-06-11'' ''09:00'' False, python_dev 2 ''2024-06-11'' ''09:00'' True]"

definition failing_write :: driver where
  "failing_write = \<lparr>find_raises = False, update_raises = True\<rparr>"

section \<open>Properties of the orchestrator\<close>

subsection \<open>Facts about one turn\<close>

lemma state_after_process_turn:
  "state_after (process_turn env s u h ts) =
     state_after (dispatch env (update_screening_progress s u) u (current_history h u) ts
        (fst (validated_action env (update_screening_progress s u) u (current_history h u))))"
  by (simp add: process_turn_def Let_def split: prod.splits)

lemma returned_process_turn:
  "returned (process_turn env s u h ts) =
     returned (dispatch env (update_screening_progress s u) u (current_history h u) ts
        (fst (validated_action env (update_screening_progress s u) u (current_history h u))))"
  by (simp add: process_turn_def Let_def split: prod.splits)

lemma calls_process_turn:
  "calls (process_turn env s u h ts) =
     snd (validated_action env (update_screening_progress s u) u (current_history h u)) @
     calls (dispatch env (update_screening_progress s u) u (current_history h u) ts
        (fst (validated_action env (update_screening_progress s u) u (current_history h u))))"
  by (simp add: process_turn_def Let_def split: prod.splits)

lemma update_complete_mono:
  "screening_complete s \<Longrightarrow> screening_complete (update_screening_progress s u)"
  by (simp add: update_screening_progress_def Let_def)

lemma update_count_mono:
  "screening_details_collected s \<le> screening_details_collected (update_screening_progress s u)"
  by (simp add: update_screening_progress_def Let_def)

lemma update_booked:
  "is_interview_booked (update_screening_progress s u) = is_interview_booked s"
  by (simp add: update_screening_progress_def Let_def)

lemma validated_action_not_schedule:
  "\<not> screening_complete s \<Longrightarrow> fst (validated_action env s u h) \<noteq> ''SCHEDULE''"
  by (simp add: validated_action_def block_schedule_def split: prod.splits)

lemma validated_schedule_complete:
  "fst (validated_action env s u h) = ''SCHEDULE'' \<Longrightarrow> screening_complete s"
  using validated_action_not_schedule by blast

lemma validated_action_calls:
  "Call_handle_scheduling \<notin> set (snd (validated_action env s u h))"
  by (auto simp: validated_action_def validate_end_def check_disengagement_def
           split: prod.splits if_splits)

lemma validated_action_end:
  "fst (validated_action env s u h) = ''END'' \<Longrightarrow>
     decide_action (main_llm env) h = ''END''
       \<and> (should_exit (exit_llm_confirm env) u h \<or> is_interview_booked s)
   \<or> (decide_action (main_llm env) h = ''CONTINUE''
        \<or> decide_action (main_llm env) h = ''END''
           \<and> \<not> should_exit (exit_llm_confirm env) u h \<and> \<not> is_interview_booked s)
      \<and> is_disengaged u h \<and> should_exit (exit_llm_disengaged env) u h"
  by (auto simp: validated_action_def validate_end_def check_disengagement_def block_schedule_def
           split: if_splits)

lemma validated_action_downgrade:
  "decide_action (main_llm env) h = ''END'' \<Longrightarrow> \<not> should_exit (exit_llm_confirm env) u h \<Longrightarrow>
   \<not> is_interview_booked s \<Longrightarrow>
   fst (validated_action env s u h) =
     (if is_disengaged u h \<and> should_exit (exit_llm_disengaged env) u h
      then ''END'' else ''CONTINUE'')"
  by (simp add: validated_action_def validate_end_def check_disengagement_def block_schedule_def)

lemma dispatch_calls:
  "Call_handle_scheduling \<in> set (calls (dispatch env s u h ts a)) \<Longrightarrow> a = ''SCHEDULE''"
  by (auto simp: dispatch_def split: if_splits sum.splits prod.splits)

lemma dispatch_action:
  "returned (dispatch env s u h ts a) = Inr (resp, act) \<Longrightarrow>
     act = a \<or> (a = ''SCHEDULE'' \<and> act = ''END'')"
  by (auto simp: dispatch_def split: if_splits sum.splits prod.splits)

lemma dispatch_end:
  "returned (dispatch env s u h ts a) = Inr (resp, ''END'') \<Longrightarrow>
     a = ''END'' \<or> a = ''SCHEDULE'' \<and> is_interview_booked (state_after (dispatch env s u h ts a))"
  by (auto simp: dispatch_def split: if_splits sum.splits prod.splits)

lemma dispatch_screening:
  "screening_complete (state_after (dispatch env s u h ts a)) = screening_complete s"
  by (auto simp: dispatch_def split: if_splits sum.splits prod.splits)

lemma dispatch_count:
  "screening_details_collected (state_after (dispatch env s u h ts a)) =
     screening_details_collected s"
  by (auto simp: dispatch_def split: if_splits sum.splits prod.splits)

lemma dispatch_booked:
  "is_interview_booked (state_after (dispatch env s u h ts a)) \<Longrightarrow>
     is_interview_booked s \<or> a = ''SCHEDULE''"
  by (auto simp: dispatch_def split: if_splits sum.splits prod.splits)

subsection \<open>The screening gate\<close>

text \<open>
  Claim C1. The gate reads \<open>screening_complete\<close> after the turn's own update of the
  screening progress, and nothing later in the turn changes the flag. In a turn in which
  the flag is false at the gate: the scheduling advisor is not called, the turn does not
  return SCHEDULE, and the flag is still false when the turn is over. If moreover the
  primary classifier's tentative action is SCHEDULE, the action dispatched is CONTINUE, and
  CONTINUE is the action returned (the one way not to return is an exception escaping the
  info advisor, which \<open>process_turn\<close> does not catch).
\<close>

theorem C1_screening_gate:
  assumes "\<not> screening_complete (update_screening_progress s user_input)"
  shows "Call_handle_scheduling \<notin> set (calls (process_turn env s user_input history ts))
       \<and> action_of (process_turn env s user_input history ts) \<noteq> Some ''SCHEDULE''
       \<and> \<not> screening_complete (state_after (process_turn env s user_input history ts))
       \<and> (decide_action (main_llm env) (current_history history user_input) = ''SCHEDULE'' \<longrightarrow>
            fst (validated_action env (update_screening_progress s user_input) user_input
                   (current_history history user_input)) = ''CONTINUE'' \<and>
            (if needs_info_retrieval user_input \<and>
                isl (info_generate_response env user_input (current_history history user_input))
             then action_of (process_turn env s user_input history ts) = None
             else action_of (process_turn env s user_input history ts) = Some ''CONTINUE''))"
proof -
  let ?h = "current_history history user_input"
  let ?s1 = "update_screening_progress s user_input"
  let ?r = "process_turn env s user_input history ts"
  let ?a = "fst (validated_action env ?s1 user_input ?h)"
  have a: "?a \<noteq> ''SCHEDULE''"
    using assms by (rule validated_action_not_schedule)
  have 1: "Call_handle_scheduling \<notin> set (calls ?r)"
    using a dispatch_calls validated_action_calls by (auto simp: calls_process_turn)
  have 2: "action_of ?r \<noteq> Some ''SCHEDULE''"
  proof
    assume "action_of ?r = Some ''SCHEDULE''"
    then obtain resp where "returned ?r = Inr (resp, ''SCHEDULE'')"
      by (auto simp: action_of_def split: sum.splits)
    then show False
      using a dispatch_action[of env ?s1 user_input ?h ts ?a resp "''SCHEDULE''"]
      by (simp add: returned_process_turn)
  qed
  have 3: "\<not> screening_complete (state_after ?r)"
    using assms by (simp add: state_after_process_turn dispatch_screening)
  have 4: "?a = ''CONTINUE''"
    if "decide_action (main_llm env) ?h = ''SCHEDULE''"
    using that assms
    by (simp add: validated_action_def validate_end_def check_disengagement_def block_schedule_def)
  have 5: "(if needs_info_retrieval user_input \<and> isl (info_generate_response env user_input ?h)
             then action_of ?r = None else action_of ?r = Some ''CONTINUE'')"
    if "decide_action (main_llm env) ?h = ''SCHEDULE''"
    using 4[OF that]
    by (auto simp: action_of_def returned_process_turn dispatch_def isl_def split: sum.splits)
  show ?thesis using 1 2 3 4 5 by blast
qed

theorem C1_screening_gate_witness:
  "\<not> screening_complete (update_screening_progress (init_state start_time) ''I like coding'')
   \<and> Call_handle_scheduling \<notin> set (calls (process_turn
        (scripted_env (Inr ''SCHEDULE'') (Inr ''CONTINUE'') (Inr ''CONTINUE'') booked_reply)
        (init_state start_time) ''I like coding'' greeting None))
   \<and> action_of (process_turn
        (scripted_env (Inr ''SCHEDULE'') (Inr ''CONTINUE'') (Inr ''CONTINUE'') booked_reply)
        (init_state start_time) ''I like coding'' greeting None) = Some ''CONTINUE''"
proof -
  let ?env = "scripted_env (Inr ''SCHEDULE'') (Inr ''CONTINUE'') (Inr ''CONTINUE'') booked_reply"
  have h: "\<not> screening_complete (update_screening_progress (init_state start_time) ''I like coding'')"
    by code_simp
  have t: "decide_action (main_llm ?env) (current_history greeting ''I like coding'') = ''SCHEDULE''"
    by code_simp
  have q: "\<not> needs_info_retrieval ''I like coding''"
    by code_simp
  show ?thesis
    using C1_screening_gate[OF h, of ?env greeting None] h t q by simp
qed


subsection \<open>When a turn ends the conversation\<close>

text \<open>
  Claim C2, as the code has it. A turn returns END only in one of three ways: the
  tentative action is END and the exit advisor agrees or an interview is already booked;
  or the action is CONTINUE after the END confirmation (the classifier said CONTINUE, or
  its END was downgraded), the disengagement heuristic matches and the exit advisor
  agrees; or the tentative action is SCHEDULE, screening is complete and the scheduling
  advisor books the interview in this turn. A tentative END that the exit advisor does
  not confirm, with no interview booked, is downgraded to CONTINUE and the turn does not
  return END, unless the disengagement check escalates it again.
\<close>

theorem C2_end_paths:
  "(action_of (process_turn env s user_input history ts) = Some ''END'' \<longrightarrow>
      decide_action (main_llm env) (current_history history user_input) = ''END''
        \<and> (should_exit (exit_llm_confirm env) user_input (current_history history user_input)
           \<or> is_interview_booked s)
    \<or> (decide_action (main_llm env) (current_history history user_input) = ''CONTINUE''
        \<or> decide_action (main_llm env) (current_history history user_input) = ''END''
           \<and> \<not> should_exit (exit_llm_confirm env) user_input (current_history history user_input)
           \<and> \<not> is_interview_booked s)
       \<and> is_disengaged user_input (current_history history user_input)
       \<and> should_exit (exit_llm_disengaged env) user_input (current_history history user_input)
    \<or> decide_action (main_llm env) (current_history history user_input) = ''SCHEDULE''
       \<and> screening_complete (update_screening_progress s user_input)
       \<and> is_interview_booked (state_after (process_turn env s user_input history ts)))
   \<and> (decide_action (main_llm env) (current_history history user_input) = ''END''
       \<and> \<not> should_exit (exit_llm_confirm env) user_input (current_history history user_input)
       \<and> \<not> is_interview_booked s
       \<and> \<not> (is_disengaged user_input (current_history history user_input)
            \<and> should_exit (exit_llm_disengaged env) user_input (current_history history user_input)) \<longrightarrow>
      fst (validated_action env (update_screening_progress s user_input) user_input
             (current_history history user_input)) = ''CONTINUE''
      \<and> action_of (process_turn env s user_input history ts) \<noteq> Some ''END'')"
proof -
  let ?h = "current_history history user_input"
  let ?s1 = "update_screening_progress s user_input"
  let ?r = "process_turn env s user_input history ts"
  let ?a = "fst (validated_action env ?s1 user_input ?h)"
  let ?t = "decide_action (main_llm env) ?h"
  have ret: "returned ?r = returned (dispatch env ?s1 user_input ?h ts ?a)"
    by (rule returned_process_turn)
  have st: "state_after ?r = state_after (dispatch env ?s1 user_input ?h ts ?a)"
    by (rule state_after_process_turn)
  have sched: "?a = ''SCHEDULE'' \<Longrightarrow> ?t = ''SCHEDULE'' \<and> screening_complete ?s1"
    by (auto simp: validated_action_def validate_end_def check_disengagement_def
          block_schedule_def split: if_splits)
  have part1: "?t = ''END'' \<and> (should_exit (exit_llm_confirm env) user_input ?h \<or> is_interview_booked s)
    \<or> (?t = ''CONTINUE'' \<or> ?t = ''END'' \<and> \<not> should_exit (exit_llm_confirm env) user_input ?h
           \<and> \<not> is_interview_booked s)
       \<and> is_disengaged user_input ?h \<and> should_exit (exit_llm_disengaged env) user_input ?h
    \<or> ?t = ''SCHEDULE'' \<and> screening_complete ?s1 \<and> is_interview_booked (state_after ?r)"
    if e: "action_of ?r = Some ''END''"
  proof -
    from e obtain resp where "returned ?r = Inr (resp, ''END'')"
      by (auto simp: action_of_def split: sum.splits)
    then have "returned (dispatch env ?s1 user_input ?h ts ?a) = Inr (resp, ''END'')"
      by (simp add: ret)
    then have "?a = ''END'' \<or> ?a = ''SCHEDULE'' \<and> is_interview_booked (state_after ?r)"
      using dispatch_end[of env ?s1 user_input ?h ts ?a resp] by (simp add: st)
    then show ?thesis
    proof
      assume "?a = ''END''"
      from validated_action_end[OF this] show ?thesis
        unfolding update_booked by blast
    next
      assume "?a = ''SCHEDULE'' \<and> is_interview_booked (state_after ?r)"
      then show ?thesis using sched by blast
    qed
  qed
  have part2: "?a = ''CONTINUE'' \<and> action_of ?r \<noteq> Some ''END''"
    if t: "?t = ''END''" and x: "\<not> should_exit (exit_llm_confirm env) user_input ?h"
      and b: "\<not> is_interview_booked s"
      and d: "\<not> (is_disengaged user_input ?h \<and> should_exit (exit_llm_disengaged env) user_input ?h)"
  proof -
    have a: "?a = ''CONTINUE''"
      using validated_action_downgrade[of env ?h user_input ?s1] t x b d
      by (simp add: update_booked)
    have "action_of ?r \<noteq> Some ''END''"
    proof
      assume "action_of ?r = Some ''END''"
      then obtain resp where "returned ?r = Inr (resp, ''END'')"
        by (auto simp: action_of_def split: sum.splits)
      then show False
        using dispatch_action[of env ?s1 user_input ?h ts ?a resp "''END''"] a
        by (simp add: ret)
    qed
    with a show ?thesis by simp
  qed
  show ?thesis using part1 part2 by blast
qed

text \<open>
  Two turns from a fresh state. In the first the classifier says END and the exit advisor
  confirms: the turn returns END. In the second the exit advisor does not confirm and the
  text is no refusal: the turn does not return END.
\<close>

theorem C2_end_paths_witness:
  "action_of (process_turn
      (scripted_env (Inr ''END'') (Inr ''END'') (Inr ''CONTINUE'') booked_reply)
      (init_state start_time) ''I already found a job'' greeting None) = Some ''END''
   \<and> decide_action
        (main_llm (scripted_env (Inr ''END'') (Inr ''END'') (Inr ''CONTINUE'') booked_reply))
        (current_history greeting ''I already found a job'') = ''END''
   \<and> should_exit
        (exit_llm_confirm (scripted_env (Inr ''END'') (Inr ''END'') (Inr ''CONTINUE'') booked_reply))
        ''I already found a job'' (current_history greeting ''I already found a job'')
   \<and> action_of (process_turn
      (scripted_env (Inr ''END'') (Inr ''CONTINUE'') (Inr ''CONTINUE'') booked_reply)
      (init_state start_time) ''Thanks, see you'' greeting None) \<noteq> Some ''END''"
proof -
  let ?e1 = "scripted_env (Inr ''END'') (Inr ''END'') (Inr ''CONTINUE'') booked_reply"
  let ?e2 = "scripted_env (Inr ''END'') (Inr ''CONTINUE'') (Inr ''CONTINUE'') booked_reply"
  let ?u1 = "''I already found a job''"
  let ?u2 = "''Thanks, see you''"
  have a1: "action_of (process_turn ?e1 (init_state start_time) ?u1 greeting None) = Some ''END''"
    by code_simp
  have n1: "\<not> is_disengaged ?u1 (current_history greeting ?u1)"
    by code_simp
  have s1: "decide_action (main_llm ?e1) (current_history greeting ?u1) \<noteq> ''SCHEDULE''"
    by code_simp
  have b: "\<not> is_interview_booked (init_state start_time)"
    by code_simp
  have first: "decide_action (main_llm ?e1) (current_history greeting ?u1) = ''END''
      \<and> should_exit (exit_llm_confirm ?e1) ?u1 (current_history greeting ?u1)"
    using C2_end_paths[of ?e1 "init_state start_time" ?u1 greeting None] a1 n1 s1 b by blast
  have t2: "decide_action (main_llm ?e2) (current_history greeting ?u2) = ''END''"
    by code_simp
  have x2: "\<not> should_exit (exit_llm_confirm ?e2) ?u2 (current_history greeting ?u2)"
    by code_simp
  have n2: "\<not> is_disengaged ?u2 (current_history greeting ?u2)"
    by code_simp
  have second: "action_of (process_turn ?e2 (init_state start_time) ?u2 greeting None) \<noteq> Some ''END''"
    using C2_end_paths[of ?e2 "init_state start_time" ?u2 greeting None] t2 x2 n2 b by blast
  show ?thesis using a1 first second by blast
qed

text \<open>
  The claim as the specification words it fails on a turn that the classifier labels
  CONTINUE: the participant refuses (``not interested''), the exit advisor agrees, and the
  turn returns END with no interview booked before or after.
\<close>

theorem C2_end_without_classifier_counterexample:
  "action_of (process_turn
      (scripted_env (Inr ''CONTINUE'') (Inr ''CONTINUE'') (Inr ''END'') booked_reply)
      (init_state start_time) ''not interested'' greeting None) = Some ''END''
   \<and> decide_action
        (main_llm (scripted_env (Inr ''CONTINUE'') (Inr ''CONTINUE'') (Inr ''END'') booked_reply))
        (current_history greeting ''not interested'') = ''CONTINUE''
   \<and> \<not> is_interview_booked (init_state start_time)
   \<and> \<not> is_interview_booked (state_after (process_turn
      (scripted_env (Inr ''CONTINUE'') (Inr ''CONTINUE'') (Inr ''END'') booked_reply)
      (init_state start_time) ''not interested'' greeting None))"
  by code_simp

subsection \<open>Booking implies screening\<close>

text \<open>
  Claim C4. In every reachable state, a booked interview implies that screening is
  complete.
\<close>

theorem C4_booked_implies_screened:
  "reachable s \<Longrightarrow> is_interview_booked s \<longrightarrow> screening_complete s"
proof (induction rule: reachable.induct)
  case (reachable_init now)
  show ?case by (simp add: init_state_def)
next
  case (reachable_turn s env user_input history ts)
  let ?h = "current_history history user_input"
  let ?s1 = "update_screening_progress s user_input"
  let ?a = "fst (validated_action env ?s1 user_input ?h)"
  show ?case
  proof
    assume "is_interview_booked (state_after (process_turn env s user_input history ts))"
    then have "is_interview_booked (state_after (dispatch env ?s1 user_input ?h ts ?a))"
      by (simp add: state_after_process_turn)
    then have "is_interview_booked ?s1 \<or> ?a = ''SCHEDULE''"
      by (rule dispatch_booked)
    then have "screening_complete ?s1"
    proof
      assume "is_interview_booked ?s1"
      then have "screening_complete s" using reachable_turn.IH by (simp add: update_booked)
      then show ?thesis by (rule update_complete_mono)
    next
      assume "?a = ''SCHEDULE''"
      then show ?thesis by (rule validated_schedule_complete)
    qed
    then show "screening_complete (state_after (process_turn env s user_input history ts))"
      by (simp add: state_after_process_turn dispatch_screening)
  qed
next
  case (reachable_reset s now)
  show ?case by (simp add: reset_def)
qed

text \<open>
  A conversation that books: the first message carries both signals, the classifier
  says SCHEDULE and the scheduling advisor reports the booking.
\<close>

theorem C4_booked_implies_screened_witness:
  "reachable (state_after (process_turn
      (scripted_env (Inr ''SCHEDULE'') (Inr ''CONTINUE'') (Inr ''CONTINUE'') booked_reply)
      (init_state start_time) ''I have 5 years with Django'' greeting None))
   \<and> is_interview_booked (state_after (process_turn
      (scripted_env (Inr ''SCHEDULE'') (Inr ''CONTINUE'') (Inr ''CONTINUE'') booked_reply)
      (init_state start_time) ''I have 5 years with Django'' greeting None))
   \<and> screening_complete (state_after (process_turn
      (scripted_env (Inr ''SCHEDULE'') (Inr ''CONTINUE'') (Inr ''CONTINUE'') booked_reply)
      (init_state start_time) ''I have 5 years with Django'' greeting None))"
proof -
  let ?s = "state_after (process_turn
      (scripted_env (Inr ''SCHEDULE'') (Inr ''CONTINUE'') (Inr ''CONTINUE'') booked_reply)
      (init_state start_time) ''I have 5 years with Django'' greeting None)"
  have r: "reachable ?s"
    by (intro reachable_turn reachable_init)
  have b: "is_interview_booked ?s"
    by code_simp
  show ?thesis using C4_booked_implies_screened[OF r] r b by blast
qed

subsection \<open>Screening is monotonic\<close>

text \<open>
  Claim C5. Once \<open>screening_complete\<close> is true it is true after every turn, whatever
  the participant says and whatever the external capabilities answer (also when an
  exception escapes the turn); the counter of screening signals never decreases in a
  turn; \<open>reset\<close> puts the flag back to false.
\<close>

theorem C5_screening_monotonic:
  "screening_complete s \<Longrightarrow>
     screening_complete (state_after (process_turn env s user_input history ts))
     \<and> screening_details_collected s
         \<le> screening_details_collected (state_after (process_turn env s user_input history ts))
     \<and> \<not> screening_complete (reset s now)"
  by (simp add: state_after_process_turn dispatch_screening dispatch_count
        update_complete_mono update_count_mono reset_def)

theorem C5_screening_monotonic_witness:
  "screening_complete (update_screening_progress (init_state start_time) ''I have 5 years with Django'')
   \<and> screening_complete (state_after (process_turn
        (scripted_env (Inr ''CONTINUE'') (Inr ''CONTINUE'') (Inr ''CONTINUE'') booked_reply)
        (update_screening_progress (init_state start_time) ''I have 5 years with Django'')
        ''I hate computers'' greeting None))
   \<and> \<not> screening_complete
        (reset (update_screening_progress (init_state start_time) ''I have 5 years with Django'')
           start_time)"
proof -
  have h: "screening_complete
      (update_screening_progress (init_state start_time) ''I have 5 years with Django'')"
    by code_simp
  show ?thesis
    using C5_screening_monotonic[OF h,
        of "scripted_env (Inr ''CONTINUE'') (Inr ''CONTINUE'') (Inr ''CONTINUE'') booked_reply"
           "''I hate computers''" greeting None start_time] h
    by blast
qed

section \<open>Properties of \<open>_parse_datetime\<close>\<close>

subsection \<open>Evaluation and date arithmetic\<close>

lemma add_days_numeral:
  "add_days (numeral k) d =
     (if d = max_date then Inl OverflowError else add_days (pred_numeral k) (next_day d))"
  by (simp add: numeral_eq_Suc)

lemma add_days_1:
  "add_days 1 d = (if d = max_date then Inl OverflowError else Inr (next_day d))"
  by (simp add: One_nat_def[symmetric] del: One_nat_def) (metis One_nat_def add_days.simps)

lemmas time_eval = resolve_time_def time_match_at_def match_hour_def match_minute_def
  match_period_def adjust_hour_def int_of_digits_def digit_val_def zfill_def dec.simps
  digit_char_def is_digit_def is_space_def lower_def lower_char_def

lemmas date_eval = parse_datetime_def resolve_date_def some_date_def first_day_name_def
  day_names_def days_ahead_def weekday_def toordinal_def days_before_year_def
  days_before_month_def days_in_month_def is_leap_def upt_rec next_day_def max_date_def
  strftime_ymd_def add_days_numeral add_days_1

lemma plus_days_Suc: "plus_days (Suc n) d = plus_days n (next_day d)"
  by (simp add: plus_days_def funpow_swap1)

lemma add_days_in_range:
  "year d < 9999 \<and> n \<le> 27 \<or> year d = 9999 \<and> month d = 1 \<and> day d + n \<le> 28 \<Longrightarrow>
   add_days n d = Inr (plus_days n d)"
proof (induction n arbitrary: d)
  case 0
  show ?case by (simp add: plus_days_def)
next
  case (Suc n)
  have ne: "d \<noteq> max_date"
    using Suc.prems by (auto simp: max_date_def)
  have "year (next_day d) < 9999 \<and> n \<le> 27
      \<or> year (next_day d) = 9999 \<and> month (next_day d) = 1 \<and> day (next_day d) + n \<le> 28"
    using Suc.prems by (auto simp: next_day_def days_in_month_def)
  then have "add_days n (next_day d) = Inr (plus_days n (next_day d))"
    by (rule Suc.IH)
  then show ?case using ne by (simp add: plus_days_Suc)
qed

lemma add_days_ok:
  "year d < 9999 \<Longrightarrow> n \<le> 14 \<Longrightarrow> add_days n d = Inr (plus_days n d)"
  by (rule add_days_in_range) simp

lemma next_day_lt: "date_lt d (next_day d)"
  by (simp add: date_lt_def next_day_def)

lemma date_lt_trans: "date_lt a b \<Longrightarrow> date_lt b c \<Longrightarrow> date_lt a c"
  by (auto simp: date_lt_def)

lemma plus_days_lt: "0 < n \<Longrightarrow> date_lt d (plus_days n d)"
proof (induction n)
  case 0
  then show ?case by simp
next
  case (Suc n)
  have step: "plus_days (Suc n) d = next_day (plus_days n d)"
    by (simp add: plus_days_def)
  show ?case
  proof (cases "n = 0")
    case True
    then show ?thesis by (simp add: plus_days_def next_day_lt)
  next
    case False
    then have "date_lt d (plus_days n d)" using Suc.IH by simp
    then show ?thesis unfolding step using next_day_lt by (rule date_lt_trans)
  qed
qed

lemma plus_days_neq: "0 < n \<Longrightarrow> plus_days n d \<noteq> d"
  using plus_days_lt[of n d] by (auto simp: date_lt_def)

lemma weekday_le: "weekday d \<le> 6"
  by (simp add: weekday_def)

lemma days_ahead_spec:
  assumes "wd \<le> 6"
  shows "days_ahead wd ref = int (spec_days_ahead wd (weekday ref))"
proof -
  define d where "d = int wd - int (weekday ref)"
  have range: "- 6 \<le> d \<and> d \<le> 6"
    using assms weekday_le[of ref] by (simp add: d_def)
  have m: "d mod 7 = (if d < 0 then d + 7 else d)"
  proof (cases "d < 0")
    case True
    have "(d + 7) mod 7 = d + 7"
      using True range by (intro mod_pos_pos_trivial) auto
    then show ?thesis using True by simp
  next
    case False
    then show ?thesis using range by simp
  qed
  have "spec_days_ahead wd (weekday ref) = nat (if d mod 7 = 0 then 7 else d mod 7)"
    by (simp add: spec_days_ahead_def d_def Let_def)
  moreover have "days_ahead wd ref = (if d \<le> 0 then d + 7 else d)"
    by (simp add: days_ahead_def d_def Let_def)
  ultimately show ?thesis using m range by auto
qed

lemma spec_days_ahead_range: "1 \<le> spec_days_ahead t r \<and> spec_days_ahead t r \<le> 7"
  by (auto simp: spec_days_ahead_def Let_def)

lemma first_day_name_Some:
  "first_day_name text = Some (name, wd) \<Longrightarrow>
     (name, wd) \<in> set day_names \<and> contains text name \<and> wd \<le> 6"
  by (auto simp: first_day_name_def day_names_def split: if_splits)


subsection \<open>The time pattern on a text of known shape\<close>

















subsection \<open>The date component\<close>

text \<open>
  Claim C6, for a reference before the year 9999 (later, the date arithmetic can raise
  \<open>OverflowError\<close>). The text is lower-cased first. If it contains ``tomorrow'', the date
  is the day after the reference, whatever weekday names it holds. Otherwise, if no weekday
  name occurs in it there is no date; and with \<open>wd\<close> the weekday of the first name of
  the table (sunday, monday, ..., saturday) that occurs in it, the date is the reference
  plus \<open>(wd - reference weekday) mod 7\<close> days, 7 in place of 0, and 7 more when the text
  contains ``next''; that date is never the reference day.
\<close>

theorem C6_date_resolution:
  assumes "year ref < 9999"
  shows "(contains (lower text0) ''tomorrow'' \<longrightarrow>
            (\<exists>t. parse_datetime text0 ref = Inr (Some (strftime_ymd (plus_days 1 ref)), t)))
       \<and> (\<not> contains (lower text0) ''tomorrow'' \<longrightarrow>
            (first_day_name (lower text0) = None \<longrightarrow>
               (\<exists>t. parse_datetime text0 ref = Inr (None, t)))
          \<and> (\<forall>day_name wd. first_day_name (lower text0) = Some (day_name, wd) \<longrightarrow>
               contains (lower text0) day_name \<and> (day_name, wd) \<in> set day_names
             \<and> (\<exists>t. parse_datetime text0 ref =
                    Inr (Some (strftime_ymd
                      (plus_days (spec_days_ahead wd (weekday ref)
                                  + (if contains (lower text0) ''next'' then 7 else 0)) ref)), t))
             \<and> plus_days (spec_days_ahead wd (weekday ref)
                          + (if contains (lower text0) ''next'' then 7 else 0)) ref \<noteq> ref))"
proof -
  let ?text = "lower text0"
  have tomorrow: "\<exists>t. parse_datetime text0 ref = Inr (Some (strftime_ymd (plus_days 1 ref)), t)"
    if "contains ?text ''tomorrow''"
    using that add_days_ok[OF assms, of 1]
    by (simp add: parse_datetime_def resolve_date_def some_date_def Let_def)
  have none: "\<exists>t. parse_datetime text0 ref = Inr (None, t)"
    if "\<not> contains ?text ''tomorrow''" "first_day_name ?text = None"
    using that by (simp add: parse_datetime_def resolve_date_def Let_def)
  have named: "contains ?text day_name \<and> (day_name, wd) \<in> set day_names
      \<and> (\<exists>t. parse_datetime text0 ref =
             Inr (Some (strftime_ymd
               (plus_days (spec_days_ahead wd (weekday ref)
                           + (if contains ?text ''next'' then 7 else 0)) ref)), t))
      \<and> plus_days (spec_days_ahead wd (weekday ref)
                   + (if contains ?text ''next'' then 7 else 0)) ref \<noteq> ref"
    if nt: "\<not> contains ?text ''tomorrow''" and f: "first_day_name ?text = Some (day_name, wd)"
    for day_name wd
  proof -
    from first_day_name_Some[OF f]
    have in_table: "(day_name, wd) \<in> set day_names" and present: "contains ?text day_name"
      and wd: "wd \<le> 6" by simp_all
    let ?k = "spec_days_ahead wd (weekday ref)"
    have k: "1 \<le> ?k \<and> ?k \<le> 7" by (rule spec_days_ahead_range)
    have da: "days_ahead wd ref = int ?k" using wd by (rule days_ahead_spec)
    have plain: "nat (days_ahead wd ref) = ?k" and more: "nat (days_ahead wd ref + 7) = ?k + 7"
      using da by simp_all
    have ok0: "add_days ?k ref = Inr (plus_days ?k ref)"
      using k by (intro add_days_ok[OF assms]) simp
    have ok7: "add_days (?k + 7) ref = Inr (plus_days (?k + 7) ref)"
      using k by (intro add_days_ok[OF assms]) simp
    have res: "\<exists>t. parse_datetime text0 ref =
             Inr (Some (strftime_ymd
               (plus_days (?k + (if contains ?text ''next'' then 7 else 0)) ref)), t)"
      using nt f ok0 ok7 plain more
      by (simp add: parse_datetime_def resolve_date_def some_date_def Let_def)
    have "0 < ?k + (if contains ?text ''next'' then 7 else 0)" using k by simp
    then have "plus_days (?k + (if contains ?text ''next'' then 7 else 0)) ref \<noteq> ref"
      by (rule plus_days_neq)
    with in_table present res show ?thesis by blast
  qed
  show ?thesis using tomorrow none named by blast
qed

text \<open>
  The reference 2024-06-10 is a Monday: ``tomorrow'' gives 2024-06-11, and ``next Tuesday''
  gives 2024-06-18, eight days on.
\<close>

theorem C6_date_resolution_witness:
  "year monday_2024_06_10 < 9999
   \<and> contains (lower ''tomorrow'') ''tomorrow''
   \<and> parse_datetime ''tomorrow'' monday_2024_06_10 = Inr (Some ''2024-06-11'', None)
   \<and> \<not> contains (lower ''next Tuesday'') ''tomorrow''
   \<and> first_day_name (lower ''next Tuesday'') = Some (''tuesday'', 1)
   \<and> weekday monday_2024_06_10 = 0
   \<and> spec_days_ahead 1 0 + 7 = 8
   \<and> parse_datetime ''next Tuesday'' monday_2024_06_10 = Inr (Some ''2024-06-18'', None)
   \<and> plus_days 8 monday_2024_06_10 \<noteq> monday_2024_06_10
   \<and> \<not> contains (lower ''See you at 10am'') ''tomorrow''
   \<and> first_day_name (lower ''See you at 10am'') = None
   \<and> parse_datetime ''See you at 10am'' monday_2024_06_10 = Inr (None, Some ''10:00'')"
proof -
  have y: "year monday_2024_06_10 < 9999"
    by (simp add: monday_2024_06_10_def)
  have a: "contains (lower ''tomorrow'') ''tomorrow''"
    by (simp add: lower_def lower_char_def)
  have b: "\<not> contains (lower ''next Tuesday'') ''tomorrow''"
    by (simp add: lower_def lower_char_def)
  have n: "contains (lower ''next Tuesday'') ''next''"
    by (simp add: lower_def lower_char_def)
  have f: "first_day_name (lower ''next Tuesday'') = Some (''tuesday'', 1)"
    by (simp add: first_day_name_def day_names_def lower_def lower_char_def)
  have w: "weekday monday_2024_06_10 = 0"
    by (simp add: date_eval monday_2024_06_10_def)
  have k: "spec_days_ahead 1 0 + 7 = 8"
    by (simp add: spec_days_ahead_def)
  have p1: "parse_datetime ''tomorrow'' monday_2024_06_10 = Inr (Some ''2024-06-11'', None)"
    by (simp add: date_eval time_eval monday_2024_06_10_def)
  have p2: "parse_datetime ''next Tuesday'' monday_2024_06_10 = Inr (Some ''2024-06-18'', None)"
    by (simp add: date_eval time_eval monday_2024_06_10_def)
  have "plus_days (spec_days_ahead 1 (weekday monday_2024_06_10)
          + (if contains (lower ''next Tuesday'') ''next'' then 7 else 0)) monday_2024_06_10
        \<noteq> monday_2024_06_10"
    using C6_date_resolution[OF y, of "''next Tuesday''"] b f by blast
  then have "plus_days 8 monday_2024_06_10 \<noteq> monday_2024_06_10"
    using n w k by simp
  moreover have b3: "\<not> contains (lower ''See you at 10am'') ''tomorrow''"
    by (simp add: lower_def lower_char_def)
  moreover have f3: "first_day_name (lower ''See you at 10am'') = None"
    by (simp add: first_day_name_def day_names_def lower_def lower_char_def)
  moreover have "\<exists>t. parse_datetime ''See you at 10am'' monday_2024_06_10 = Inr (None, t)"
    using C6_date_resolution[OF y, of "''See you at 10am''"] b3 f3 by blast
  moreover have p3: "parse_datetime ''See you at 10am'' monday_2024_06_10
      = Inr (None, Some ''10:00'')"
    by (simp add: date_eval time_eval monday_2024_06_10_def)
  ultimately show ?thesis using y a b f w k p1 p2 by blast
qed

subsection \<open>The time component\<close>





subsection \<open>Any numeral is read as a time\<close>



section \<open>Properties of the slot stores\<close>

subsection \<open>Finding and writing the slot of a key\<close>

lemma find_key_distinct:
  "distinct (map slot_key tbl) \<Longrightarrow> r \<in> set tbl \<Longrightarrow> slot_key r = k \<Longrightarrow>
     find (\<lambda>x. slot_key x = k) tbl = Some r"
proof (induction tbl)
  case Nil
  then show ?case by simp
next
  case (Cons a tbl)
  show ?case
  proof (cases "r = a")
    case True
    have "slot_key a = k" using True Cons.prems(3) by simp
    then show ?thesis using True by simp
  next
    case False
    have r: "r \<in> set tbl" using False Cons.prems(2) by simp
    have d: "distinct (map slot_key tbl)" using Cons.prems(1) by simp
    have "slot_key a \<notin> slot_key ` set tbl" using Cons.prems(1) by simp
    then have "slot_key a \<noteq> slot_key r" using r by blast
    then have ne: "slot_key a \<noteq> k" using Cons.prems(3) by simp
    have "find (\<lambda>x. slot_key x = k) tbl = Some r"
      using d r Cons.prems(3) by (rule Cons.IH)
    then show ?thesis using ne by simp
  qed
qed


lemma find_key_Some:
  "find (\<lambda>x. slot_key x = k) tbl = Some r \<Longrightarrow> r \<in> set tbl \<and> slot_key r = k"
proof (induction tbl)
  case Nil
  then show ?case by simp
next
  case (Cons a tbl)
  show ?case
  proof (cases "slot_key a = k")
    case True
    then have "r = a" using Cons.prems by simp
    then show ?thesis using True by simp
  next
    case False
    then have "find (\<lambda>x. slot_key x = k) tbl = Some r" using Cons.prems by simp
    then have "r \<in> set tbl \<and> slot_key r = k" by (rule Cons.IH)
    then show ?thesis by simp
  qed
qed

lemma find_key_None:
  "find (\<lambda>x. slot_key x = k) tbl = None \<Longrightarrow> r \<in> set tbl \<Longrightarrow> slot_key r \<noteq> k"
  by (simp add: find_None_iff)

lemma check_iff:
  assumes "distinct (map slot_key tbl)"
  shows "(case find (\<lambda>x. slot_key x = k) tbl of None \<Rightarrow> False | Some r \<Rightarrow> available r)
       = (\<exists>r\<in>set tbl. slot_key r = k \<and> available r)"
proof (cases "find (\<lambda>x. slot_key x = k) tbl")
  case None
  then have "\<not> (\<exists>r\<in>set tbl. slot_key r = k \<and> available r)"
    using find_key_None by blast
  then show ?thesis using None by simp
next
  case (Some r)
  then have r: "r \<in> set tbl \<and> slot_key r = k" by (rule find_key_Some)
  have same: "r' = r" if "r' \<in> set tbl" "slot_key r' = k" for r'
    using find_key_distinct[OF assms that] Some by simp
  have "(\<exists>r'\<in>set tbl. slot_key r' = k \<and> available r') = available r"
    using r same by blast
  then show ?thesis using Some by simp
qed


lemma unchanged_off_key:
  "\<forall>x\<in>set rs. slot_key x \<noteq> k \<Longrightarrow>
     map (\<lambda>x. if slot_key x = k then x\<lparr>available := False\<rparr> else x) rs = rs"
  by (induction rs) simp_all

lemma map_book_update:
  "i < length tbl \<Longrightarrow> slot_key (tbl ! i) = k \<Longrightarrow> distinct (map slot_key tbl) \<Longrightarrow>
     map (\<lambda>x. if slot_key x = k then x\<lparr>available := False\<rparr> else x) tbl
       = tbl[i := (tbl ! i)\<lparr>available := False\<rparr>]"
proof (induction tbl arbitrary: i)
  case Nil
  then show ?case by simp
next
  case (Cons a rs)
  have notin: "slot_key a \<notin> slot_key ` set rs" and d: "distinct (map slot_key rs)"
    using Cons.prems(3) by simp_all
  show ?case
  proof (cases i)
    case 0
    then have ka: "slot_key a = k" using Cons.prems(2) by simp
    then have "\<forall>x\<in>set rs. slot_key x \<noteq> k" using notin by blast
    then have "map (\<lambda>x. if slot_key x = k then x\<lparr>available := False\<rparr> else x) rs = rs"
      by (rule unchanged_off_key)
    then show ?thesis using 0 ka by simp
  next
    case (Suc j)
    then have j: "j < length rs" and kj: "slot_key (rs ! j) = k"
      using Cons.prems(1,2) by simp_all
    then have "slot_key a \<noteq> k" using notin by (metis imageI nth_mem)
    moreover have "map (\<lambda>x. if slot_key x = k then x\<lparr>available := False\<rparr> else x) rs
        = rs[j := (rs ! j)\<lparr>available := False\<rparr>]"
      using j kj d by (rule Cons.IH)
    ultimately show ?thesis using Suc by simp
  qed
qed

lemma book_first_update:
  "i < length tbl \<Longrightarrow> slot_key (tbl ! i) = k \<Longrightarrow> distinct (map slot_key tbl) \<Longrightarrow>
     book_first k tbl = tbl[i := (tbl ! i)\<lparr>available := False\<rparr>]"
proof (induction tbl arbitrary: i)
  case Nil
  then show ?case by simp
next
  case (Cons a rs)
  have notin: "slot_key a \<notin> slot_key ` set rs" and d: "distinct (map slot_key rs)"
    using Cons.prems(3) by simp_all
  show ?case
  proof (cases i)
    case 0
    then have "slot_key a = k" using Cons.prems(2) by simp
    then show ?thesis using 0 by simp
  next
    case (Suc j)
    then have j: "j < length rs" and kj: "slot_key (rs ! j) = k"
      using Cons.prems(1,2) by simp_all
    then have "slot_key a \<noteq> k" using notin by (metis imageI nth_mem)
    moreover have "book_first k rs = rs[j := (rs ! j)\<lparr>available := False\<rparr>]"
      using j kj d by (rule Cons.IH)
    ultimately show ?thesis using Suc by simp
  qed
qed

lemma available_index:
  assumes "distinct (map slot_key tbl)"
    and "(case find (\<lambda>x. slot_key x = k) tbl of None \<Rightarrow> False | Some r \<Rightarrow> available r)"
  shows "\<exists>i<length tbl. slot_key (tbl ! i) = k \<and> available (tbl ! i)"
proof -
  obtain r where "r \<in> set tbl" "slot_key r = k" "available r"
    using assms check_iff[OF assms(1), of k] by blast
  then show ?thesis by (metis in_set_conv_nth)
qed


lemma slot_key_booked: "slot_key (x\<lparr>available := False\<rparr>) = slot_key x"
  by (simp add: slot_key_def)

lemma book_first_keys: "map slot_key (book_first k tbl) = map slot_key tbl"
  by (induction tbl) (simp_all add: slot_key_booked)

lemma book_slot_keys: "map slot_key (snd (book_slot tbl d t p)) = map slot_key tbl"
proof -
  have "map slot_key (map (\<lambda>x. if slot_key x = k then x\<lparr>available := False\<rparr> else x) tbl)
          = map slot_key tbl" for k
    by (induction tbl) (simp_all add: slot_key_booked)
  then show ?thesis by (simp add: book_slot_def)
qed

lemma mongo_book_slot_keys:
  "map slot_key (active_store (snd (mongo_book_slot drv db d t p))) = map slot_key (active_store db)"
  by (cases "collection db")
     (simp_all add: mongo_book_slot_def active_store_def Let_def book_first_keys)

lemma book_slot_distinct:
  assumes "distinct (map slot_key tbl)"
  shows "success (fst (book_slot tbl d t p))
           = (\<exists>r\<in>set tbl. slot_key r = (d, t, p) \<and> available r)
       \<and> (success (fst (book_slot tbl d t p)) \<longrightarrow>
            message (fst (book_slot tbl d t p)) = booked_message d t
            \<and> (\<exists>i<length tbl. slot_key (tbl ! i) = (d, t, p) \<and> available (tbl ! i)
                 \<and> snd (book_slot tbl d t p) = tbl[i := (tbl ! i)\<lparr>available := False\<rparr>]))
       \<and> (\<not> success (fst (book_slot tbl d t p)) \<longrightarrow>
            message (fst (book_slot tbl d t p)) = not_available_message d t
            \<and> snd (book_slot tbl d t p) = tbl)"
proof (cases "check_slot_availability tbl d t p")
  case True
  then have c: "(case find (\<lambda>x. slot_key x = (d, t, p)) tbl of None \<Rightarrow> False | Some r \<Rightarrow> available r)"
    by (simp add: check_slot_availability_def)
  then obtain i where i: "i < length tbl" "slot_key (tbl ! i) = (d, t, p)" "available (tbl ! i)"
    using available_index[OF assms] by blast
  have "snd (book_slot tbl d t p) = tbl[i := (tbl ! i)\<lparr>available := False\<rparr>]"
    using True map_book_update[OF i(1,2) assms] by (simp add: book_slot_def)
  moreover have "\<exists>r\<in>set tbl. slot_key r = (d, t, p) \<and> available r"
    using c check_iff[OF assms, of "(d, t, p)"] by simp
  moreover have "fst (book_slot tbl d t p) = \<lparr>success = True, message = booked_message d t\<rparr>"
    using True by (simp add: book_slot_def)
  ultimately show ?thesis using i by auto
next
  case False
  then have "\<not> (\<exists>r\<in>set tbl. slot_key r = (d, t, p) \<and> available r)"
    using check_iff[OF assms, of "(d, t, p)"] by (simp add: check_slot_availability_def)
  moreover have "book_slot tbl d t p
      = (\<lparr>success = False, message = not_available_message d t\<rparr>, tbl)"
    using False by (simp add: book_slot_def)
  ultimately show ?thesis by simp
qed

lemma mongo_check_active:
  "collection db \<noteq> None \<longrightarrow> \<not> find_raises drv \<Longrightarrow>
     mongo_check_slot_availability drv db d t p
       = (case find (\<lambda>x. slot_key x = (d, t, p)) (active_store db) of
            None \<Rightarrow> False | Some r \<Rightarrow> available r)"
  by (cases "collection db") (simp_all add: mongo_check_slot_availability_def active_store_def)

lemma mongo_book_slot_distinct:
  assumes dist: "distinct (map slot_key (active_store db))"
    and quiet: "collection db \<noteq> None \<longrightarrow> \<not> find_raises drv \<and> \<not> update_raises drv"
  shows "success (fst (mongo_book_slot drv db d t p))
           = (\<exists>r\<in>set (active_store db). slot_key r = (d, t, p) \<and> available r)
       \<and> (success (fst (mongo_book_slot drv db d t p)) \<longrightarrow>
            message (fst (mongo_book_slot drv db d t p)) = booked_message d t
            \<and> (\<exists>i<length (active_store db).
                  slot_key (active_store db ! i) = (d, t, p) \<and> available (active_store db ! i)
                  \<and> snd (mongo_book_slot drv db d t p)
                      = with_active_store db
                          ((active_store db)[i := (active_store db ! i)\<lparr>available := False\<rparr>])))
       \<and> (\<not> success (fst (mongo_book_slot drv db d t p)) \<longrightarrow>
            message (fst (mongo_book_slot drv db d t p)) = not_available_message d t
            \<and> snd (mongo_book_slot drv db d t p) = db)"
proof (cases "mongo_check_slot_availability drv db d t p")
  case True
  then have c: "(case find (\<lambda>x. slot_key x = (d, t, p)) (active_store db) of
                   None \<Rightarrow> False | Some r \<Rightarrow> available r)"
    using mongo_check_active[of db drv d t p] quiet by simp
  then obtain i where i: "i < length (active_store db)"
      "slot_key (active_store db ! i) = (d, t, p)" "available (active_store db ! i)"
    using available_index[OF dist] by blast
  have upd: "book_first (d, t, p) (active_store db)
      = (active_store db)[i := (active_store db ! i)\<lparr>available := False\<rparr>]"
    using i(1,2) dist by (rule book_first_update)
  have ex: "\<exists>r\<in>set (active_store db). slot_key r = (d, t, p) \<and> available r"
    using c check_iff[OF dist, of "(d, t, p)"] by simp
  have res: "mongo_book_slot drv db d t p
      = (\<lparr>success = True, message = booked_message d t\<rparr>,
         with_active_store db (book_first (d, t, p) (active_store db)))"
  proof (cases "collection db")
    case None
    then have "list_ex (\<lambda>x. slot_key x = (d, t, p)) (mock_data db)"
      using ex by (auto simp: active_store_def list_ex_iff)
    then show ?thesis using None True
      by (simp add: mongo_book_slot_def with_active_store_def active_store_def)
  next
    case (Some docs)
    then show ?thesis using True quiet
      by (simp add: mongo_book_slot_def with_active_store_def active_store_def)
  qed
  show ?thesis using res upd ex i by auto
next
  case False
  then have "\<not> (\<exists>r\<in>set (active_store db). slot_key r = (d, t, p) \<and> available r)"
    using mongo_check_active[of db drv d t p] quiet check_iff[OF dist, of "(d, t, p)"] by simp
  moreover have "mongo_book_slot drv db d t p
      = (\<lparr>success = False, message = not_available_message d t\<rparr>, db)"
    using False by (simp add: mongo_book_slot_def)
  ultimately show ?thesis by simp
qed


lemma book_slot_general:
  "(success (fst (book_slot tbl d t p)) \<longrightarrow>
      (\<exists>r\<in>set tbl. slot_key r = (d, t, p) \<and> available r)
      \<and> message (fst (book_slot tbl d t p)) = booked_message d t
      \<and> snd (book_slot tbl d t p)
          = map (\<lambda>r. if slot_key r = (d, t, p) then r\<lparr>available := False\<rparr> else r) tbl)
   \<and> (\<not> success (fst (book_slot tbl d t p)) \<longrightarrow>
        message (fst (book_slot tbl d t p)) = not_available_message d t
        \<and> snd (book_slot tbl d t p) = tbl)"
proof (cases "check_slot_availability tbl d t p")
  case True
  then obtain r where f: "find (\<lambda>x. slot_key x = (d, t, p)) tbl = Some r" and a: "available r"
    by (auto simp: check_slot_availability_def split: option.splits)
  from f have "r \<in> set tbl \<and> slot_key r = (d, t, p)" by (rule find_key_Some)
  then have "\<exists>r\<in>set tbl. slot_key r = (d, t, p) \<and> available r" using a by blast
  moreover have "book_slot tbl d t p
      = (\<lparr>success = True, message = booked_message d t\<rparr>,
         map (\<lambda>r. if slot_key r = (d, t, p) then r\<lparr>available := False\<rparr> else r) tbl)"
    using True by (simp add: book_slot_def)
  ultimately show ?thesis by simp
next
  case False
  then have "book_slot tbl d t p
      = (\<lparr>success = False, message = not_available_message d t\<rparr>, tbl)"
    by (simp add: book_slot_def)
  then show ?thesis by simp
qed

lemma mongo_book_slot_general:
  assumes quiet: "collection db \<noteq> None \<longrightarrow> \<not> find_raises drv \<and> \<not> update_raises drv"
  shows "(success (fst (mongo_book_slot drv db d t p)) \<longrightarrow>
      (\<exists>r\<in>set (active_store db). slot_key r = (d, t, p) \<and> available r)
      \<and> message (fst (mongo_book_slot drv db d t p)) = booked_message d t
      \<and> snd (mongo_book_slot drv db d t p)
          = with_active_store db (book_first (d, t, p) (active_store db)))
   \<and> (\<not> success (fst (mongo_book_slot drv db d t p)) \<longrightarrow>
        message (fst (mongo_book_slot drv db d t p)) = not_available_message d t
        \<and> snd (mongo_book_slot drv db d t p) = db)"
proof (cases "mongo_check_slot_availability drv db d t p")
  case True
  then have "(case find (\<lambda>x. slot_key x = (d, t, p)) (active_store db) of
                None \<Rightarrow> False | Some r \<Rightarrow> available r)"
    using mongo_check_active[of db drv d t p] quiet by simp
  then obtain r where f: "find (\<lambda>x. slot_key x = (d, t, p)) (active_store db) = Some r"
      and a: "available r"
    by (auto split: option.splits)
  from f have r: "r \<in> set (active_store db) \<and> slot_key r = (d, t, p)" by (rule find_key_Some)
  then have ex: "\<exists>r\<in>set (active_store db). slot_key r = (d, t, p) \<and> available r"
    using a by blast
  have "mongo_book_slot drv db d t p
      = (\<lparr>success = True, message = booked_message d t\<rparr>,
         with_active_store db (book_first (d, t, p) (active_store db)))"
  proof (cases "collection db")
    case None
    then have "list_ex (\<lambda>x. slot_key x = (d, t, p)) (mock_data db)"
      using r by (auto simp: active_store_def list_ex_iff)
    then show ?thesis using None True
      by (simp add: mongo_book_slot_def with_active_store_def active_store_def)
  next
    case (Some docs)
    then show ?thesis using True quiet
      by (simp add: mongo_book_slot_def with_active_store_def active_store_def)
  qed
  then show ?thesis using ex by simp
next
  case False
  then have "mongo_book_slot drv db d t p
      = (\<lparr>success = False, message = not_available_message d t\<rparr>, db)"
    by (simp add: mongo_book_slot_def)
  then show ?thesis by simp
qed

lemmas store_eval = two_slots_def duplicate_slots_def failing_write_def python_dev_def slot_key_def book_slot_def
  check_slot_availability_def mongo_book_slot_def mongo_check_slot_availability_def
  active_store_def with_active_store_def quiet_driver_def booked_message_def
  not_available_message_def

subsection \<open>Booking\<close>

text \<open>
  Claim C3, as the code has it. In every store: \<open>book_slot\<close> succeeds only if a slot of
  that date, time and position is in the store and available; when it fails the result is
  the ``not available'' failure and the store is as it was; and the store holds the same
  dates, times and positions afterwards. In a store in which date, time and position
  identify a slot, it succeeds exactly when that slot is available, and then that one slot
  goes from available to unavailable and nothing else changes. For \<open>MongoDBManager\<close> this
  is about the store it works on, in a call in which the driver raises in neither the read
  nor the write.
\<close>

theorem C3_book_slot:
  "(success (fst (book_slot tbl d t p)) \<longrightarrow>
      (\<exists>r\<in>set tbl. slot_key r = (d, t, p) \<and> available r)
      \<and> message (fst (book_slot tbl d t p)) = booked_message d t
      \<and> snd (book_slot tbl d t p)
          = map (\<lambda>r. if slot_key r = (d, t, p) then r\<lparr>available := False\<rparr> else r) tbl)
   \<and> (\<not> success (fst (book_slot tbl d t p)) \<longrightarrow>
        message (fst (book_slot tbl d t p)) = not_available_message d t
        \<and> snd (book_slot tbl d t p) = tbl)
   \<and> map slot_key (snd (book_slot tbl d t p)) = map slot_key tbl
   \<and> (distinct (map slot_key tbl) \<longrightarrow>
        success (fst (book_slot tbl d t p))
          = (\<exists>r\<in>set tbl. slot_key r = (d, t, p) \<and> available r)
      \<and> (success (fst (book_slot tbl d t p)) \<longrightarrow>
           (\<exists>i<length tbl. slot_key (tbl ! i) = (d, t, p) \<and> available (tbl ! i)
              \<and> snd (book_slot tbl d t p) = tbl[i := (tbl ! i)\<lparr>available := False\<rparr>])))
   \<and> map slot_key (active_store (snd (mongo_book_slot drv db d t p)))
       = map slot_key (active_store db)
   \<and> ((collection db \<noteq> None \<longrightarrow> \<not> find_raises drv \<and> \<not> update_raises drv) \<longrightarrow>
        (success (fst (mongo_book_slot drv db d t p)) \<longrightarrow>
           (\<exists>r\<in>set (active_store db). slot_key r = (d, t, p) \<and> available r)
           \<and> message (fst (mongo_book_slot drv db d t p)) = booked_message d t
           \<and> snd (mongo_book_slot drv db d t p)
               = with_active_store db (book_first (d, t, p) (active_store db)))
      \<and> (\<not> success (fst (mongo_book_slot drv db d t p)) \<longrightarrow>
           message (fst (mongo_book_slot drv db d t p)) = not_available_message d t
           \<and> snd (mongo_book_slot drv db d t p) = db)
      \<and> (distinct (map slot_key (active_store db)) \<longrightarrow>
           success (fst (mongo_book_slot drv db d t p))
             = (\<exists>r\<in>set (active_store db). slot_key r = (d, t, p) \<and> available r)
         \<and> (success (fst (mongo_book_slot drv db d t p)) \<longrightarrow>
              (\<exists>i<length (active_store db).
                 slot_key (active_store db ! i) = (d, t, p) \<and> available (active_store db ! i)
                 \<and> snd (mongo_book_slot drv db d t p)
                     = with_active_store db
                         ((active_store db)[i := (active_store db ! i)\<lparr>available := False\<rparr>])))))"
proof -
  note g = book_slot_general[of tbl d t p]
  note k = book_slot_keys[of tbl d t p]
  note mk = mongo_book_slot_keys[of drv db d t p]
  have dd: "success (fst (book_slot tbl d t p))
          = (\<exists>r\<in>set tbl. slot_key r = (d, t, p) \<and> available r)
      \<and> (success (fst (book_slot tbl d t p)) \<longrightarrow>
           (\<exists>i<length tbl. slot_key (tbl ! i) = (d, t, p) \<and> available (tbl ! i)
              \<and> snd (book_slot tbl d t p) = tbl[i := (tbl ! i)\<lparr>available := False\<rparr>]))"
    if "distinct (map slot_key tbl)"
    using book_slot_distinct[OF that, of d t p] by blast
  have mg: "(success (fst (mongo_book_slot drv db d t p)) \<longrightarrow>
           (\<exists>r\<in>set (active_store db). slot_key r = (d, t, p) \<and> available r)
           \<and> message (fst (mongo_book_slot drv db d t p)) = booked_message d t
           \<and> snd (mongo_book_slot drv db d t p)
               = with_active_store db (book_first (d, t, p) (active_store db)))
      \<and> (\<not> success (fst (mongo_book_slot drv db d t p)) \<longrightarrow>
           message (fst (mongo_book_slot drv db d t p)) = not_available_message d t
           \<and> snd (mongo_book_slot drv db d t p) = db)"
    if "collection db \<noteq> None \<longrightarrow> \<not> find_raises drv \<and> \<not> update_raises drv"
    using that by (rule mongo_book_slot_general)
  have md: "success (fst (mongo_book_slot drv db d t p))
             = (\<exists>r\<in>set (active_store db). slot_key r = (d, t, p) \<and> available r)
         \<and> (success (fst (mongo_book_slot drv db d t p)) \<longrightarrow>
              (\<exists>i<length (active_store db).
                 slot_key (active_store db ! i) = (d, t, p) \<and> available (active_store db ! i)
                 \<and> snd (mongo_book_slot drv db d t p)
                     = with_active_store db
                         ((active_store db)[i := (active_store db ! i)\<lparr>available := False\<rparr>])))"
    if "collection db \<noteq> None \<longrightarrow> \<not> find_raises drv \<and> \<not> update_raises drv"
      and "distinct (map slot_key (active_store db))"
    using mongo_book_slot_distinct[OF that(2) that(1), of d t p] by blast
  show ?thesis
    by (intro conjI impI g[THEN conjunct1, THEN mp, THEN conjunct1]
          g[THEN conjunct1, THEN mp, THEN conjunct2, THEN conjunct1]
          g[THEN conjunct1, THEN mp, THEN conjunct2, THEN conjunct2]
          g[THEN conjunct2, THEN mp, THEN conjunct1]
          g[THEN conjunct2, THEN mp, THEN conjunct2] k mk)
       (use dd mg md in blast)+
qed

text \<open>
  A store of two slots at 09:00 (available) and 10:00 (taken): booking 09:00 succeeds and
  flips it, booking 10:00 fails and changes nothing, in both managers.
\<close>

theorem C3_book_slot_witness:
  "distinct (map slot_key two_slots)
   \<and> book_slot two_slots ''2024-06-11'' ''09:00'' ''Python Dev''
       = (\<lparr>success = True,
           message = ''Successfully booked interview for 2024-06-11 at 09:00''\<rparr>,
          [python_dev 1 ''2024-06-11'' ''09:00'' False,
           python_dev 2 ''2024-06-11'' ''10:00'' False])
   \<and> book_slot two_slots ''2024-06-11'' ''10:00'' ''Python Dev''
       = (\<lparr>success = False, message = ''Slot 2024-06-11 at 10:00 is not available''\<rparr>,
          two_slots)
   \<and> (\<exists>r\<in>set two_slots. slot_key r = (''2024-06-11'', ''09:00'', ''Python Dev'') \<and> available r)
   \<and> distinct (map slot_key (active_store \<lparr>collection = None, mock_data = two_slots\<rparr>))
   \<and> success (fst (mongo_book_slot quiet_driver \<lparr>collection = None, mock_data = two_slots\<rparr>
                      ''2024-06-11'' ''09:00'' ''Python Dev''))
   \<and> \<not> success (fst (mongo_book_slot quiet_driver \<lparr>collection = Some two_slots, mock_data = []\<rparr>
                      ''2024-06-11'' ''10:00'' ''Python Dev''))"
proof -
  let ?m = "\<lparr>collection = None, mock_data = two_slots\<rparr>"
  let ?c = "\<lparr>collection = Some two_slots, mock_data = []\<rparr>"
  note A = C3_book_slot[where tbl = two_slots and d = "''2024-06-11''" and t = "''09:00''"
      and p = "''Python Dev''" and db = ?m and drv = quiet_driver]
  note B = C3_book_slot[where tbl = two_slots and d = "''2024-06-11''" and t = "''10:00''"
      and p = "''Python Dev''" and db = ?c and drv = quiet_driver]
  have d: "distinct (map slot_key two_slots)"
    by (simp add: store_eval)
  have dm: "distinct (map slot_key (active_store ?m))" "distinct (map slot_key (active_store ?c))"
    by (simp_all add: store_eval)
  have q: "collection ?m \<noteq> None \<longrightarrow> \<not> find_raises quiet_driver \<and> \<not> update_raises quiet_driver"
      "collection ?c \<noteq> None \<longrightarrow> \<not> find_raises quiet_driver \<and> \<not> update_raises quiet_driver"
    by (simp_all add: quiet_driver_def)
  have b1: "book_slot two_slots ''2024-06-11'' ''09:00'' ''Python Dev''
       = (\<lparr>success = True,
           message = ''Successfully booked interview for 2024-06-11 at 09:00''\<rparr>,
          [python_dev 1 ''2024-06-11'' ''09:00'' False,
           python_dev 2 ''2024-06-11'' ''10:00'' False])"
    by (simp add: store_eval)
  have b2: "book_slot two_slots ''2024-06-11'' ''10:00'' ''Python Dev''
       = (\<lparr>success = False, message = ''Slot 2024-06-11 at 10:00 is not available''\<rparr>,
          two_slots)"
    by (simp add: store_eval)
  have s1: "success (fst (book_slot two_slots ''2024-06-11'' ''09:00'' ''Python Dev''))"
    by (simp add: b1)
  have e1: "\<exists>r\<in>set two_slots. slot_key r = (''2024-06-11'', ''09:00'', ''Python Dev'') \<and> available r"
    using A s1 by blast
  have e2: "\<exists>r\<in>set (active_store ?m).
              slot_key r = (''2024-06-11'', ''09:00'', ''Python Dev'') \<and> available r"
    using e1 by (simp add: active_store_def)
  have m1: "success (fst (mongo_book_slot quiet_driver ?m ''2024-06-11'' ''09:00'' ''Python Dev''))"
    using A dm(1) q(1) e2 by blast
  have n2: "\<not> (\<exists>r\<in>set (active_store ?c).
              slot_key r = (''2024-06-11'', ''10:00'', ''Python Dev'') \<and> available r)"
    by (simp add: store_eval)
  have m2: "\<not> success (fst (mongo_book_slot quiet_driver ?c ''2024-06-11'' ''10:00'' ''Python Dev''))"
    using B q(2) n2 by blast
  show ?thesis by (intro conjI d b1 b2 e1 dm(1) m1 m2)
qed

text \<open>
  The claim as the specification words it, for every store, fails in two ways. With two
  rows of one date, time and position, the first taken and the second available,
  \<open>DatabaseManager.book_slot\<close> answers ``not available'' although an available slot of
  that key is in the store. And when the write of the driver raises,
  \<open>MongoDBManager.book_slot\<close> reports success and marks the slot in its mock data, while
  the slot of the collection stays available.
\<close>

theorem C3_every_store_counterexample:
  "book_slot duplicate_slots ''2024-06-11'' ''09:00'' ''Python Dev''
     = (\<lparr>success = False, message = ''Slot 2024-06-11 at 09:00 is not available''\<rparr>,
        duplicate_slots)
   \<and> python_dev 2 ''2024-06-11'' ''09:00'' True \<in> set duplicate_slots
   \<and> slot_key (python_dev 2 ''2024-06-11'' ''09:00'' True)
       = (''2024-06-11'', ''09:00'', ''Python Dev'')
   \<and> available (python_dev 2 ''2024-06-11'' ''09:00'' True)
   \<and> mongo_book_slot failing_write \<lparr>collection = Some two_slots, mock_data = two_slots\<rparr>
        ''2024-06-11'' ''09:00'' ''Python Dev''
     = (\<lparr>success = True,
         message = ''Successfully booked interview for 2024-06-11 at 09:00''\<rparr>,
        \<lparr>collection = Some two_slots,
         mock_data = [python_dev 1 ''2024-06-11'' ''09:00'' False,
                      python_dev 2 ''2024-06-11'' ''10:00'' False]\<rparr>)
   \<and> available (two_slots ! 0)"
  by (simp add: store_eval)

subsection \<open>Slots near a date\<close>

text \<open>
  \<open>DatabaseManager.get_slots_near_date\<close> ranks as the specification says: for a limit
  that is not negative it returns the first \<open>limit\<close> entries of a list that holds exactly
  the available slots of the position, by the distance in days and, at the same distance,
  by the time of day.
\<close>

lemma key_le_ranked:
  "((date_diff days_of target (slot_date a), slot_time a)
      \<le> (date_diff days_of target (slot_date b), slot_time b))
   = ranked_before days_of target a b"
  by (auto simp: ranked_before_def less_eq_prod_def)

lemma sorted_by_key:
  "sorted_wrt (\<lambda>a b. f a \<le> f b) (sort_key f xs)"
  using sorted_sort_key[of f xs] by (simp add: sorted_map)

lemma near_date_ranked:
  assumes "0 \<le> limit"
  shows "\<exists>ys. get_slots_near_date days_of tbl target p limit = take (nat limit) ys
            \<and> mset ys = mset (filter (\<lambda>r. available r \<and> slot_position r = p) tbl)
            \<and> sorted_wrt (ranked_before days_of target) ys"
proof -
  let ?f = "\<lambda>r. (date_diff days_of target (slot_date r), slot_time r)"
  let ?ys = "sort_key ?f (filter (\<lambda>r. available r \<and> slot_position r = p) tbl)"
  have "sorted_wrt (\<lambda>a b. ?f a \<le> ?f b) ?ys" by (rule sorted_by_key)
  then have "sorted_wrt (ranked_before days_of target) ?ys"
    by (rule sorted_wrt_mono_rel[rotated]) (simp only: key_le_ranked)
  moreover have "get_slots_near_date days_of tbl target p limit = take (nat limit) ?ys"
    using assms by (simp add: get_slots_near_date_def sql_limit_def)
  moreover have "mset ?ys = mset (filter (\<lambda>r. available r \<and> slot_position r = p) tbl)"
    by simp
  ultimately show ?thesis by blast
qed

lemmas near_eval = get_slots_near_date_def mongo_get_slots_near_date_def sort_by_proximity_def
  sql_limit_def py_take_def cursor_limit_def date_diff_def days_of_ymd_def three_slots_def four_slots_def
  python_dev_def quiet_driver_def is_digit_def int_of_digits_def digit_val_def
  days_in_month_def is_leap_def toordinal_def days_before_year_def days_before_month_def
  upt_rec less_eq_prod_def less_prod_def


text \<open>
  Claim C8 on \<open>MongoDBManager.get_slots_near_date\<close>. On mock data of three available
  slots, two on the day before the target date and one on the day after, and a limit of 2,
  it returns the slot of 10:00 and leaves out a slot of 09:00 at the same distance, which
  the ranking of the claim puts first and \<open>DatabaseManager\<close> returns. On a collection of
  four available slots and a limit of 1 it ranks the three earliest only, and returns a
  slot two days from the target date although a slot on the target date is available.
\<close>

theorem C8_mongo_ranking_diverges:
  "mongo_get_slots_near_date days_of_ymd quiet_driver
      \<lparr>collection = None, mock_data = three_slots\<rparr> ''2024-06-12'' ''Python Dev'' 2
   = Inr [python_dev 1 ''2024-06-11'' ''09:00'' True, python_dev 2 ''2024-06-11'' ''10:00'' True]
   \<and> python_dev 3 ''2024-06-13'' ''09:00'' True \<in> set three_slots
   \<and> ranked_before days_of_ymd ''2024-06-12''
        (python_dev 3 ''2024-06-13'' ''09:00'' True) (python_dev 2 ''2024-06-11'' ''10:00'' True)
   \<and> \<not> ranked_before days_of_ymd ''2024-06-12''
        (python_dev 2 ''2024-06-11'' ''10:00'' True) (python_dev 3 ''2024-06-13'' ''09:00'' True)
   \<and> get_slots_near_date days_of_ymd three_slots ''2024-06-12'' ''Python Dev'' 2
       = [python_dev 1 ''2024-06-11'' ''09:00'' True, python_dev 3 ''2024-06-13'' ''09:00'' True]
   \<and> mongo_get_slots_near_date days_of_ymd quiet_driver
        \<lparr>collection = Some four_slots, mock_data = []\<rparr> ''2024-06-14'' ''Python Dev'' 1
       = Inr [python_dev 3 ''2024-06-12'' ''09:00'' True]
   \<and> python_dev 4 ''2024-06-14'' ''09:00'' True \<in> set four_slots
   \<and> get_slots_near_date days_of_ymd four_slots ''2024-06-14'' ''Python Dev'' 1
       = [python_dev 4 ''2024-06-14'' ''09:00'' True]"
  by (simp add: near_eval ranked_before_def)

section \<open>Failures of the external capabilities\<close>

text \<open>
  Claim C9 at a turn in which the call of the primary classifier raises:
  \<open>decide_action\<close> returns the text of the error as the action, the turn answers with
  the apology and returns that action, which is none of CONTINUE, SCHEDULE and END. A
  failure of the screening reply is handed to the participant as the reply. The other
  classifiers do recover: \<open>evaluate\<close> answers CONTINUE and \<open>_classify_intent\<close> answers
  OTHER when their call raises, and \<open>decide_action\<close> answers CONTINUE to an output it
  cannot read.
\<close>

theorem C9_classifier_failure_surfaces:
  "returned (process_turn
      (scripted_env (Inl ''Connection error.'') (Inr ''CONTINUE'') (Inr ''CONTINUE'') booked_reply)
      (init_state start_time) ''I have 5 years with Django'' greeting None)
   = Inr (apology, ''ERROR: Connection error.'')
   \<and> ''ERROR: Connection error.'' \<notin> set [''CONTINUE'', ''SCHEDULE'', ''END'']
   \<and> response_of (process_turn
        ((scripted_env (Inr ''CONTINUE'') (Inr ''CONTINUE'') (Inr ''CONTINUE'') booked_reply)
           \<lparr>screening_llm := (\<lambda>h m. Inl ''Connection error.'')\<rparr>)
        (init_state start_time) ''I like coding'' greeting None)
       = Some ''Error generating response: Connection error.''
   \<and> evaluate (\<lambda>m h. Inl ''Connection error.'') ''I like coding'' greeting = ''CONTINUE''
   \<and> classify_intent (\<lambda>h m. Inl ''Connection error.'') ''I like coding'' greeting = ''OTHER''
   \<and> decide_action (\<lambda>h. Inr ''I cannot tell'') greeting = ''CONTINUE''"
  by code_simp

end
